theory Spec2Isabelle
  imports Main "HOL-Library.Multiset"
begin

section \<open>Texts and offsets\<close>

text \<open>
  The plugin works on JavaScript strings and on offsets into them. A text is modelled as
  a list of characters and an offset as a natural number: every offset of the source is a
  \<^verbatim>\<open>match.index\<close>, a length, or a sum of the two. For a natural number \<open>n\<close>,
  \<^verbatim>\<open>text.slice(0, n)\<close> is \<^term>\<open>take n t\<close> and \<^verbatim>\<open>text.slice(n)\<close> is
  \<^term>\<open>drop n t\<close>: both clamp \<open>n\<close> to the length of the text, as \<^verbatim>\<open>slice\<close> does.
\<close>

section \<open>The edit engine (\<^verbatim>\<open>apply_edits\<close>, file.ts)\<close>

text \<open>An edit \<^verbatim>\<open>{ start, end, text }\<close>.\<close>

record edit =
  e_start :: nat
  e_end :: nat
  e_text :: string

text \<open>One iteration of the loop: \<^verbatim>\<open>text.slice(0, edit.start) + edit.text + text.slice(edit.end)\<close>.\<close>

definition splice :: "string \<Rightarrow> edit \<Rightarrow> string" where
  "splice t e = take (e_start e) t @ e_text e @ drop (e_end e) t"

text \<open>
  \<^verbatim>\<open>edits.sort((a, b) => b.start - a.start)\<close>: a stable sort by descending \<^verbatim>\<open>start\<close>
  (\<^verbatim>\<open>Array.prototype.sort\<close> is stable). It is written as an insertion sort that puts an
  edit in front of the first edit whose start is not larger, so that edits with equal
  starts keep the order of the list.
\<close>

fun insert_desc :: "edit \<Rightarrow> edit list \<Rightarrow> edit list" where
  "insert_desc e [] = [e]"
| "insert_desc e (x # xs) =
     (if e_start x \<le> e_start e then e # x # xs else x # insert_desc e xs)"

definition sort_edits :: "edit list \<Rightarrow> edit list" where
  "sort_edits es = foldr insert_desc es []"

definition apply_edits :: "string \<Rightarrow> edit list \<Rightarrow> string" where
  "apply_edits t edits = foldl splice t (sort_edits edits)"

subsection \<open>Notions the properties of the edit engine are stated with\<close>

text \<open>Two edits do not overlap when their half-open spans \<open>[start, end)\<close> are disjoint.\<close>

definition disjoint_edits :: "edit \<Rightarrow> edit \<Rightarrow> bool" where
  "disjoint_edits a b = (e_end a \<le> e_start b \<or> e_end b \<le> e_start a)"

definition overlapping_edits :: "edit \<Rightarrow> edit \<Rightarrow> bool" where
  "overlapping_edits a b = (e_start a < e_end b \<and> e_start b < e_end a)"

fun non_overlapping :: "edit list \<Rightarrow> bool" where
  "non_overlapping [] = True"
| "non_overlapping (e # es) = (list_all (disjoint_edits e) es \<and> non_overlapping es)"

definition well_formed_edit :: "string \<Rightarrow> edit \<Rightarrow> bool" where
  "well_formed_edit t e = (e_start e \<le> e_end e \<and> e_end e \<le> length t)"

text \<open>
  The text an edit set denotes, read off the original text alone: for edits in ascending
  order, copy the original up to the next edit, put the replacement, and go on behind the
  edit's end.
\<close>

fun rebuild :: "nat \<Rightarrow> string \<Rightarrow> edit list \<Rightarrow> string" where
  "rebuild pos t [] = drop pos t"
| "rebuild pos t (e # es) =
     take (e_start e - pos) (drop pos t) @ e_text e @ rebuild (e_end e) t es"

section \<open>JavaScript string operations used by the plugin\<close>

text \<open>
  Characters are the 8-bit characters of \<^typ>\<open>string\<close>; the model is exact for ASCII
  documents. The white space of \<^verbatim>\<open>trim()\<close> and of the regular expression class
  \<^verbatim>\<open>\s\<close> is, within ASCII: tab, line feed, vertical tab, form feed, carriage return and
  space. A line terminator (where \<^verbatim>\<open>.\<close> stops and where \<^verbatim>\<open>^\<close> and \<^verbatim>\<open>$\<close> match
  under the flag \<^verbatim>\<open>m\<close>) is a line feed or a carriage return.
\<close>

definition is_space :: "char \<Rightarrow> bool" where
  "is_space c = (c \<in> {CHR 0x09, CHR 0x0A, CHR 0x0B, CHR 0x0C, CHR 0x0D, CHR '' ''})"

definition is_line_terminator :: "char \<Rightarrow> bool" where
  "is_line_terminator c = (c = CHR 0x0A \<or> c = CHR 0x0D)"

definition is_digit :: "char \<Rightarrow> bool" where
  "is_digit c = (c \<in> set ''0123456789'')"

text \<open>\<^verbatim>\<open>s.trim()\<close>.\<close>

definition trim :: "string \<Rightarrow> string" where
  "trim s = rev (dropWhile is_space (rev (dropWhile is_space s)))"

text \<open>\<^verbatim>\<open>s.split(sep)\<close> for a separator of one character: the empty string splits into one empty piece.\<close>

fun split_on :: "char \<Rightarrow> string \<Rightarrow> string list" where
  "split_on sep [] = [[]]"
| "split_on sep (c # cs) =
     (if c = sep then [] # split_on sep cs
      else (case split_on sep cs of
              [] \<Rightarrow> [[c]]
            | piece # pieces \<Rightarrow> (c # piece) # pieces))"

text \<open>\<^verbatim>\<open>s.startsWith(p)\<close>, the test a literal of a regular expression makes at a position.\<close>

definition starts_with :: "string \<Rightarrow> string \<Rightarrow> bool" where
  "starts_with p s = (take (length p) s = p)"

text \<open>JavaScript truthiness of a value of type \<^verbatim>\<open>number | null\<close>; \<^verbatim>\<open>NaN\<close> is modelled as \<open>None\<close>.\<close>

definition truthy :: "int option \<Rightarrow> bool" where
  "truthy v = (case v of None \<Rightarrow> False | Some n \<Rightarrow> n \<noteq> 0)"

text \<open>\<^verbatim>\<open>xs.pop()\<close> and \<^verbatim>\<open>xs.shift()\<close>: the element removed (\<open>None\<close> for \<^verbatim>\<open>undefined\<close>) and the rest.\<close>

definition pop :: "'a list \<Rightarrow> 'a option \<times> 'a list" where
  "pop xs = (if xs = [] then (None, []) else (Some (last xs), butlast xs))"

definition shift :: "'a list \<Rightarrow> 'a option \<times> 'a list" where
  "shift xs = (case xs of [] \<Rightarrow> (None, []) | x # rest \<Rightarrow> (Some x, rest))"

section \<open>The regular expressions of the write pass and of the bulk delete\<close>

text \<open>
  Each regular expression literal of file.ts and bulk-delete.ts that works on the text of
  a document is written out as the function it computes: where the leftmost match
  starts, what it covers, and what \<^verbatim>\<open>replace\<close> leaves.
\<close>

abbreviation LF :: char where "LF \<equiv> CHR 0x0A"
abbreviation CR :: char where "CR \<equiv> CHR 0x0D"

text \<open>\<^verbatim>\<open>s.indexOf(p)\<close>: the offset of the first occurrence of \<open>p\<close>, \<open>None\<close> for \<open>-1\<close>.\<close>

fun find_sub :: "string \<Rightarrow> string \<Rightarrow> nat option" where
  "find_sub p [] = (if p = [] then Some 0 else None)"
| "find_sub p (c # cs) =
     (if starts_with p (c # cs) then Some 0 else map_option Suc (find_sub p cs))"

text \<open>
  \<^verbatim>\<open>/^---\n([\s\S]*?)\n---/\<close> (no flag, so \<^verbatim>\<open>^\<close> is the start of the text): the text
  starts with \<^verbatim>\<open>---\n\<close> and the lazy group ends at the first \<^verbatim>\<open>\n---\<close> behind it.
  The result is the group \<^verbatim>\<open>match[1]\<close> and \<^verbatim>\<open>match[0].length\<close>.
\<close>

definition frontmatter_match :: "string \<Rightarrow> (string \<times> nat) option" where
  "frontmatter_match s =
     (if starts_with (''---'' @ [LF]) s then
        (case find_sub (LF # ''---'') (drop 4 s) of
           None \<Rightarrow> None
         | Some i \<Rightarrow> Some (take i (drop 4 s), i + 8))
      else None)"

text \<open>
  The leftmost start of a line (\<^verbatim>\<open>^\<close> under the flag \<^verbatim>\<open>m\<close>: the start of the text or
  the position behind a line terminator) at which the text goes on with \<open>key\<close>: the text
  in front of it and the text from it. \<open>bol\<close> says whether the current position starts a
  line.
\<close>

fun find_line :: "string \<Rightarrow> bool \<Rightarrow> string \<Rightarrow> (string \<times> string) option" where
  "find_line key bol [] = (if bol \<and> key = [] then Some ([], []) else None)"
| "find_line key bol (c # cs) =
     (if bol \<and> starts_with key (c # cs) then Some ([], c # cs)
      else map_option (\<lambda>(pre, rest). (c # pre, rest)) (find_line key (is_line_terminator c) cs))"

text \<open>\<^verbatim>\<open>/^nid:.*$/m.test(s)\<close> and \<^verbatim>\<open>/^nid:.*\n?/m.test(s)\<close>: some line starts with \<^verbatim>\<open>nid:\<close>.\<close>

definition has_nid_line :: "string \<Rightarrow> bool" where
  "has_nid_line s = (find_line ''nid:'' True s \<noteq> None)"

text \<open>
  \<^verbatim>\<open>s.replace(/^nid:.*$/m, r)\<close> and \<^verbatim>\<open>s.replace(/^(nid:).*/m, r)\<close>: the first line that
  starts with \<^verbatim>\<open>nid:\<close> is replaced, up to its line terminator, by \<open>r\<close>
  (\<^verbatim>\<open>.\<close> matches no line terminator).
\<close>

definition replace_nid_line :: "string \<Rightarrow> string \<Rightarrow> string" where
  "replace_nid_line r s =
     (case find_line ''nid:'' True s of
        None \<Rightarrow> s
      | Some (pre, rest) \<Rightarrow> pre @ r @ dropWhile (\<lambda>c. \<not> is_line_terminator c) (drop 4 rest))"

text \<open>\<^verbatim>\<open>s.replace(/^nid:[^\n]*/m, "nid:")\<close>: as before, but the match runs up to the line feed.\<close>

definition clear_nid_value :: "string \<Rightarrow> string" where
  "clear_nid_value s =
     (case find_line ''nid:'' True s of
        None \<Rightarrow> s
      | Some (pre, rest) \<Rightarrow> pre @ ''nid:'' @ dropWhile (\<lambda>c. c \<noteq> LF) (drop 4 rest))"

text \<open>
  \<^verbatim>\<open>/nid:[^\n]*$/.test(s)\<close> (no flag, so \<^verbatim>\<open>$\<close> is the end of the text): at some position
  the text goes on with \<^verbatim>\<open>nid:\<close> and has no line feed behind it.
\<close>

fun nid_on_last_line :: "string \<Rightarrow> bool" where
  "nid_on_last_line [] = False"
| "nid_on_last_line (c # cs) =
     ((starts_with ''nid:'' (c # cs) \<and> LF \<notin> set (drop 4 (c # cs))) \<or> nid_on_last_line cs)"

text \<open>
  \<^verbatim>\<open>s.replace(/(\n\s*)?nid:[^\n]*\s*$/, "")\<close>. Behind \<^verbatim>\<open>nid:\<close> the match must reach
  the end of the text through characters that are no line feed and then white space only
  (\<open>nid_to_end\<close>). At a position, the optional group takes a line feed and the white
  space behind it when \<^verbatim>\<open>nid:\<close> follows there; otherwise \<^verbatim>\<open>nid:\<close> must stand at the
  position itself. The leftmost position that matches is where the text is cut.
\<close>

definition nid_to_end :: "string \<Rightarrow> bool" where
  "nid_to_end s =
     (starts_with ''nid:'' s \<and> list_all is_space (dropWhile (\<lambda>c. c \<noteq> LF) (drop 4 s)))"

definition nid_tail_at :: "string \<Rightarrow> bool" where
  "nid_tail_at s =
     ((case s of [] \<Rightarrow> False | c # cs \<Rightarrow> c = LF \<and> nid_to_end (dropWhile is_space cs))
      \<or> nid_to_end s)"

fun strip_nid_tail :: "string \<Rightarrow> string" where
  "strip_nid_tail [] = []"
| "strip_nid_tail (c # cs) = (if nid_tail_at (c # cs) then [] else c # strip_nid_tail cs)"

text \<open>
  \<^verbatim>\<open>/^nid:\s*(\d+)/m\<close>: the group of the leftmost match. At a start of line the text
  must go on with \<^verbatim>\<open>nid:\<close>, white space, and at least one digit.
\<close>

definition nid_value_at :: "string \<Rightarrow> string option" where
  "nid_value_at s =
     (if starts_with ''nid:'' s then
        (let ds = takeWhile is_digit (dropWhile is_space (drop 4 s))
         in if ds = [] then None else Some ds)
      else None)"

fun nid_value_scan :: "bool \<Rightarrow> string \<Rightarrow> string option" where
  "nid_value_scan bol [] = None"
| "nid_value_scan bol (c # cs) =
     (case (if bol then nid_value_at (c # cs) else None) of
        Some ds \<Rightarrow> Some ds
      | None \<Rightarrow> nid_value_scan (is_line_terminator c) cs)"

text \<open>
  \<^verbatim>\<open>double_regexp = /(?:\r\n|\r|\n)((?:\r\n|\r|\n)(?:<!--)?ID: \d+)/g\<close>. The lengths a
  line break \<^verbatim>\<open>(?:\r\n|\r|\n)\<close> can take at a position, in the order the alternatives
  are tried.
\<close>

definition line_breaks :: "string \<Rightarrow> nat list" where
  "line_breaks s =
     (if starts_with [CR, LF] s then [2, 1]
      else if starts_with [CR] s \<or> starts_with [LF] s then [1]
      else [])"

text \<open>\<^verbatim>\<open>(?:<!--)?ID: \d+\<close> at a position: the length of the match.\<close>

definition id_marker_at :: "string \<Rightarrow> nat option" where
  "id_marker_at s =
     (let c = (if starts_with ''<!--'' s then 4 else 0);
          ds = takeWhile is_digit (drop (c + 4) s)
      in if starts_with ''ID: '' (drop c s) \<and> ds \<noteq> [] then Some (c + 4 + length ds) else None)"

text \<open>
  A match of \<^verbatim>\<open>double_regexp\<close> at a position: the length of the first line break and
  the length of the group, for the first choice of the two line breaks that lets the
  rest match.
\<close>

definition double_match_at :: "string \<Rightarrow> (nat \<times> nat) option" where
  "double_match_at s =
     (case concat (map (\<lambda>n1. concat (map (\<lambda>n2.
               case id_marker_at (drop (n1 + n2) s) of
                 None \<Rightarrow> []
               | Some n \<Rightarrow> [(n1, n2 + n)]) (line_breaks (drop n1 s)))) (line_breaks s)) of
        [] \<Rightarrow> None
      | r # _ \<Rightarrow> Some r)"

text \<open>
  \<^verbatim>\<open>text.replace(double_regexp, "$1")\<close>: from left to right, every match loses its first
  line break and keeps its group; the search goes on behind the match. \<open>skip\<close> and
  \<open>keep\<close> count the characters of the current match still to drop and to copy.
\<close>

fun collapse_double :: "nat \<Rightarrow> nat \<Rightarrow> string \<Rightarrow> string" where
  "collapse_double skip keep [] = []"
| "collapse_double (Suc skip) keep (c # cs) = collapse_double skip keep cs"
| "collapse_double 0 (Suc keep) (c # cs) = c # collapse_double 0 keep cs"
| "collapse_double 0 0 (c # cs) =
     (case double_match_at (c # cs) of
        None \<Rightarrow> c # collapse_double 0 0 cs
      | Some (n1, n2) \<Rightarrow> collapse_double (n1 - 1) n2 cs)"

text \<open>
  \<^verbatim>\<open>parseInt(s)\<close>: leading white space, a sign, then hexadecimal digits behind
  \<^verbatim>\<open>0x\<close> or decimal digits; \<open>None\<close> is \<^verbatim>\<open>NaN\<close>. The value is the exact integer
  (a JavaScript number is exact below \<open>2\<^sup>5\<^sup>3\<close>).
\<close>

definition digit_val :: "char \<Rightarrow> nat" where
  "digit_val c =
     (if is_digit c then of_char c - 48
      else if c \<in> set ''abcdef'' then of_char c - 87
      else of_char c - 55)"

definition is_hex_digit :: "char \<Rightarrow> bool" where
  "is_hex_digit c = (is_digit c \<or> c \<in> set ''abcdefABCDEF'')"

definition number_of :: "nat \<Rightarrow> string \<Rightarrow> nat" where
  "number_of base ds = foldl (\<lambda>a c. base * a + digit_val c) 0 ds"

definition parseInt :: "string \<Rightarrow> int option" where
  "parseInt s =
     (let s1 = dropWhile is_space s;
          negative = starts_with ''-'' s1;
          s2 = (if starts_with ''-'' s1 \<or> starts_with ''+'' s1 then drop 1 s1 else s1);
          sign = (if negative then - 1 else 1)
      in
      if starts_with ''0x'' s2 \<or> starts_with ''0X'' s2 then
        (let hs = takeWhile is_hex_digit (drop 2 s2)
         in if hs = [] then None else Some (sign * int (number_of 16 hs)))
      else
        (let ds = takeWhile is_digit s2
         in if ds = [] then None else Some (sign * int (number_of 10 ds))))"

text \<open>\<^verbatim>\<open>n.toString()\<close> for an integer.\<close>

fun digits_of :: "nat \<Rightarrow> string" where
  "digits_of n =
     (if n < 10 then [char_of (48 + n)] else digits_of (n div 10) @ [char_of (48 + n mod 10)])"

declare digits_of.simps [simp del]

definition toString :: "int \<Rightarrow> string" where
  "toString i = (if i < 0 then ''-'' @ digits_of (nat (- i)) else digits_of (nat i))"

section \<open>Scanning a document (class \<^verbatim>\<open>AllFile\<close>, file.ts)\<close>

subsection \<open>Spans and the ignore list\<close>

type_synonym span = "nat \<times> nat"

text \<open>
  \<^verbatim>\<open>contained_in(span, spans)\<close>: some element has
  \<^verbatim>\<open>span[0] >= element[0] - 1 && span[1] <= element[1] + 1\<close>. The subtraction is the
  integers' (an element starting at 0 gives \<open>-1\<close>).
\<close>

definition contained_in :: "span \<Rightarrow> span list \<Rightarrow> bool" where
  "contained_in span spans =
     list_ex (\<lambda>element. int (fst element) - 1 \<le> int (fst span) \<and> snd span \<le> snd element + 1) spans"

subsection \<open>Data of a scan\<close>

text \<open>\<^verbatim>\<open>AnkiConnectNote\<close>: what the scanner reads and writes of it.\<close>

record anki_note =
  deckName :: string
  modelName :: string
  note_fields :: "(string \<times> string) list"
  tags :: "string list"

text \<open>
  The sentinels \<^verbatim>\<open>CLOZE_ERROR\<close> and \<^verbatim>\<open>NOTE_TYPE_ERROR\<close> are constants of note.ts, which
  is not among the sources. file.ts compares them with \<^verbatim>\<open>parsed.identifier\<close>, a
  \<^verbatim>\<open>number | null\<close>, so they are numbers; their values are parameters of the model.
\<close>

record sentinels =
  CLOZE_ERROR :: int
  NOTE_TYPE_ERROR :: int

text \<open>
  One match of a note pattern together with what the parser of note.ts (classes
  \<^verbatim>\<open>Note\<close>, \<^verbatim>\<open>InlineNote\<close>, \<^verbatim>\<open>RegexNote\<close>, not among the sources) made of it:
  \<^item> \<open>s_index\<close>: \<^verbatim>\<open>match.index\<close>; \<open>s_length\<close>: \<^verbatim>\<open>match[0].length\<close>;
  \<^item> \<open>s_position\<close>: the offset behind the first capture group, where a block or inline
    note gets a new identifier;
  \<^item> \<open>s_note\<close>, \<open>s_identifier\<close>: \<^verbatim>\<open>parsed.note\<close> and \<^verbatim>\<open>parsed.identifier\<close>;
  \<^item> \<open>s_id_rel\<close>: offset and length of the identifier marker that the scanner finds
    again inside the matched text (\<^verbatim>\<open>idMatch\<close>), \<open>None\<close> when it finds none.
\<close>

record scanned =
  s_index :: nat
  s_length :: nat
  s_position :: nat
  s_note :: anki_note
  s_identifier :: "int option"
  s_id_rel :: "(nat \<times> nat) option"

text \<open>The settings a scan reads (\<^verbatim>\<open>FileData\<close>).\<close>

record file_data =
  EXISTING_IDS :: "int list"
  saveIDToFrontmatter :: bool
  comment :: bool
  regex_required_tags :: bool
  regexp_tags :: "(string \<times> string) list option"
  custom_regexps :: "(string \<times> string) list"

text \<open>
  The metadata cache of the host (\<^verbatim>\<open>CachedMetadata\<close>). \<open>fc_nid\<close> is what
  \<^verbatim>\<open>setupScan\<close> reads of the front-matter property \<^verbatim>\<open>nid\<close>: absent or falsy, or the
  result of \<^verbatim>\<open>parseInt\<close>, which is a number or \<^verbatim>\<open>NaN\<close>.
\<close>

datatype yaml_nid = NidAbsent | NidNaN | NidNumber int

datatype fm_tags = TagArray "string list" | TagString string | TagOther

record file_cache =
  fc_nid :: yaml_nid
  fc_frontmatter_tags :: "fm_tags option"
  fc_tags :: "string list option"

text \<open>What \<^verbatim>\<open>console.warn\<close> was called with.\<close>

datatype report = UnknownIdentifier "int option" | UnknownNoteType string

text \<open>
  The fields of an \<^verbatim>\<open>AllFile\<close> object (\<open>file_text\<close> is \<^verbatim>\<open>this.file\<close>). \<open>global_tags\<close> holds
  \<^verbatim>\<open>this.global_tags.split(TAG_SEP)\<close> (\<^verbatim>\<open>TAG_SEP\<close> is a constant of note.ts);
  \<open>console\<close> collects the warnings.
\<close>

record all_file =
  file_text :: string
  ignore_spans :: "span list"
  notes_to_add :: "anki_note list"
  id_indexes :: "nat list"
  inline_notes_to_add :: "anki_note list"
  inline_id_indexes :: "nat list"
  regex_notes_to_add :: "anki_note list"
  regex_id_indexes :: "nat list"
  notes_to_edit :: "(anki_note \<times> int) list"
  notes_to_delete :: "int list"
  all_notes_to_add :: "anki_note list"
  note_ids :: "int option list"
  global_tags :: "string list"
  useFrontmatterID :: bool
  frontmatterID :: "int option"
  existingIDSpans :: "span list"
  notesToWriteInline :: "(nat \<times> int) list"
  console :: "report list"

text \<open>The object the constructor leaves: the field initialisers of the class.\<close>

definition new_AllFile :: "string \<Rightarrow> all_file" where
  "new_AllFile file_contents =
     \<lparr>file_text = file_contents, ignore_spans = [], notes_to_add = [], id_indexes = [],
      inline_notes_to_add = [], inline_id_indexes = [], regex_notes_to_add = [],
      regex_id_indexes = [], notes_to_edit = [], notes_to_delete = [],
      all_notes_to_add = [], note_ids = [], global_tags = [], useFrontmatterID = False,
      frontmatterID = None, existingIDSpans = [], notesToWriteInline = [], console = []\<rparr>"

text \<open>
  What a scan is given besides the settings: the results of the pattern matches over
  \<^verbatim>\<open>this.file\<close> with the patterns of the settings, each parsed.
  \<^item> \<open>in_ignore\<close>: the list \<^verbatim>\<open>add_spans_to_ignore\<close> builds;
  \<^item> \<open>in_notes\<close>, \<open>in_inline\<close>: the matches of \<^verbatim>\<open>NOTE_REGEXP\<close> and \<^verbatim>\<open>INLINE_REGEXP\<close>;
  \<^item> \<open>in_regex note_type regexp_str search_id search_tags\<close>: the matches of
    \<^verbatim>\<open>new RegExp(regexp_str + tag_str + id_str, 'gm')\<close>;
  \<^item> \<open>in_deletions\<close>: \<^verbatim>\<open>parseInt(match[1])\<close> for the matches of \<^verbatim>\<open>EMPTY_REGEXP\<close>;
  \<^item> \<open>in_global_tags\<close>: the tags \<^verbatim>\<open>setup_global_tags\<close> finds, split.
\<close>

record scan_input =
  in_ignore :: "span list"
  in_notes :: "scanned list"
  in_inline :: "scanned list"
  in_regex :: "string \<Rightarrow> string \<Rightarrow> bool \<Rightarrow> bool \<Rightarrow> scanned list"
  in_deletions :: "int list"
  in_global_tags :: "string list"

subsection \<open>\<^verbatim>\<open>setupScan\<close>\<close>

text \<open>
  The front-matter identifier is read only when \<^verbatim>\<open>saveIDToFrontmatter\<close> is set and the
  property is truthy; otherwise the field keeps its value.
\<close>

definition setupScan :: "file_data \<Rightarrow> file_cache \<Rightarrow> scan_input \<Rightarrow> all_file \<Rightarrow> all_file" where
  "setupScan d fc inp st =
     st\<lparr>global_tags := in_global_tags inp,
        ignore_spans := in_ignore inp,
        existingIDSpans := [],
        notesToWriteInline := [],
        frontmatterID :=
          (if saveIDToFrontmatter d then
             (case fc_nid fc of
                NidAbsent \<Rightarrow> frontmatterID st
              | NidNaN \<Rightarrow> None
              | NidNumber n \<Rightarrow> Some n)
           else frontmatterID st),
        notes_to_add := [], inline_notes_to_add := [], regex_notes_to_add := [],
        id_indexes := [], inline_id_indexes := [], regex_id_indexes := [],
        notes_to_edit := [], notes_to_delete := []\<rparr>"

subsection \<open>\<^verbatim>\<open>scanNotes\<close> and \<^verbatim>\<open>scanInlineNotes\<close>\<close>

text \<open>\<^verbatim>\<open>parsed.note.tags.push(...this.global_tags.split(TAG_SEP))\<close>.\<close>

definition with_global_tags :: "all_file \<Rightarrow> anki_note \<Rightarrow> anki_note" where
  "with_global_tags st n = n\<lparr>tags := tags n @ global_tags st\<rparr>"

text \<open>The push onto \<^verbatim>\<open>existingIDSpans\<close> when the identifier marker is found again.\<close>

definition record_id_span :: "scanned \<Rightarrow> all_file \<Rightarrow> all_file" where
  "record_id_span m st =
     (case s_id_rel m of
        None \<Rightarrow> st
      | Some (off, len) \<Rightarrow>
          st\<lparr>existingIDSpans := existingIDSpans st @ [(s_index m + off, s_index m + off + len)]\<rparr>)"

text \<open>The body of the loop of \<^verbatim>\<open>scanNotes\<close>, for one match.\<close>

definition scanNotes_match :: "sentinels \<Rightarrow> file_data \<Rightarrow> all_file \<Rightarrow> scanned \<Rightarrow> all_file" where
  "scanNotes_match k d st m =
     (case s_identifier m of
        None \<Rightarrow>
          st\<lparr>notes_to_add := notes_to_add st @ [with_global_tags st (s_note m)],
             id_indexes := id_indexes st @ [s_position m]\<rparr>
      | Some i \<Rightarrow>
          let st1 = record_id_span m st in
          if i \<notin> set (EXISTING_IDS d) then
            (if i = CLOZE_ERROR k then st1
             else if i = NOTE_TYPE_ERROR k then
               st1\<lparr>console := console st1 @ [UnknownNoteType (modelName (s_note m))]\<rparr>
             else st1\<lparr>console := console st1 @ [UnknownIdentifier (Some i)]\<rparr>)
          else st1\<lparr>notes_to_edit := notes_to_edit st1 @ [(s_note m, i)]\<rparr>)"

definition scanNotes :: "sentinels \<Rightarrow> file_data \<Rightarrow> scanned list \<Rightarrow> all_file \<Rightarrow> all_file" where
  "scanNotes k d ms st = foldl (scanNotes_match k d) st ms"

text \<open>The body of the loop of \<^verbatim>\<open>scanInlineNotes\<close>, for one match.\<close>

definition scanInlineNotes_match :: "sentinels \<Rightarrow> file_data \<Rightarrow> all_file \<Rightarrow> scanned \<Rightarrow> all_file" where
  "scanInlineNotes_match k d st m =
     (case s_identifier m of
        None \<Rightarrow>
          st\<lparr>inline_notes_to_add := inline_notes_to_add st @ [with_global_tags st (s_note m)],
             inline_id_indexes := inline_id_indexes st @ [s_position m]\<rparr>
      | Some i \<Rightarrow>
          let st1 = record_id_span m st in
          if i \<notin> set (EXISTING_IDS d) then
            (if i = CLOZE_ERROR k then st1
             else st1\<lparr>console := console st1 @ [UnknownIdentifier (Some i)]\<rparr>)
          else st1\<lparr>notes_to_edit := notes_to_edit st1 @ [(s_note m, i)]\<rparr>)"

definition scanInlineNotes :: "sentinels \<Rightarrow> file_data \<Rightarrow> scanned list \<Rightarrow> all_file \<Rightarrow> all_file" where
  "scanInlineNotes k d ms st = foldl (scanInlineNotes_match k d) st ms"

subsection \<open>\<^verbatim>\<open>search\<close>: one custom regular expression\<close>

definition span_of :: "scanned \<Rightarrow> span" where
  "span_of m = (s_index m, s_index m + s_length m)"

text \<open>
  One match of the innermost loop. \<^verbatim>\<open>findignore\<close> is a generator: it tests a match
  against \<^verbatim>\<open>this.ignore_spans\<close> when the loop asks for it, so against the list as the
  earlier iterations left it; a match it does not yield leaves the state as it is.
  \<^verbatim>\<open>continue\<close> after \<^verbatim>\<open>this.ignore_spans.pop()\<close> skips the rest of the body.
\<close>

definition search_match :: "sentinels \<Rightarrow> file_data \<Rightarrow> bool \<Rightarrow> all_file \<Rightarrow> scanned \<Rightarrow> all_file" where
  "search_match k d search_id st m =
     (if contained_in (span_of m) (ignore_spans st) then st
      else
        let st1 = st\<lparr>ignore_spans := ignore_spans st @ [span_of m]\<rparr>;
            popped = st1\<lparr>ignore_spans := snd (pop (ignore_spans st1))\<rparr>;
            id_span = (\<lambda>s. if search_id \<and> truthy (s_identifier m) then record_id_span m s else s);
            warned = st1\<lparr>console := console st1 @ [UnknownIdentifier (s_identifier m)]\<rparr>
        in
        if search_id then
          (case s_identifier m of
             None \<Rightarrow> id_span warned
           | Some i \<Rightarrow>
               if i \<notin> set (EXISTING_IDS d) then
                 (if i = CLOZE_ERROR k then popped else id_span warned)
               else id_span (st1\<lparr>notes_to_edit := notes_to_edit st1 @ [(s_note m, i)]\<rparr>))
        else if s_identifier m = Some (CLOZE_ERROR k) then popped
        else
          st1\<lparr>regex_notes_to_add := regex_notes_to_add st1 @ [with_global_tags st1 (s_note m)],
              regex_id_indexes := regex_id_indexes st1 @ [s_index m + s_length m]\<rparr>)"

text \<open>
  \<^verbatim>\<open>search(note_type, regexp_str)\<close>: the four variants, identifier suffix first.
  \<open>matches search_id search_tags\<close> are the matches of the variant's pattern.
\<close>

definition search_variant ::
  "sentinels \<Rightarrow> file_data \<Rightarrow> (bool \<Rightarrow> bool \<Rightarrow> scanned list) \<Rightarrow> all_file \<Rightarrow> bool \<times> bool \<Rightarrow> all_file" where
  "search_variant k d matches st v =
     (case v of (search_id, search_tags) \<Rightarrow>
        foldl (search_match k d search_id) st (matches search_id search_tags))"

definition search ::
  "sentinels \<Rightarrow> file_data \<Rightarrow> (bool \<Rightarrow> bool \<Rightarrow> scanned list) \<Rightarrow> all_file \<Rightarrow> all_file" where
  "search k d matches st =
     foldl (search_variant k d matches) st
       [(True, True), (True, False), (False, True), (False, False)]"

subsection \<open>\<^verbatim>\<open>hasRequiredTag\<close>\<close>

definition required_tags_of :: "string \<Rightarrow> string list" where
  "required_tags_of tags_str =
     filter (\<lambda>t. length t > 0) (map trim (split_on (CHR '','') tags_str))"

text \<open>
  The argument is \<open>None\<close> for \<^verbatim>\<open>undefined\<close>. \<^verbatim>\<open>tagCache.tag.replace('#', '')\<close> removes
  the first \<open>#\<close>. A front-matter \<^verbatim>\<open>tags\<close> value that is a string is truthy when it is
  not empty; one that is neither an array nor a string matches nothing.
\<close>

definition hasRequiredTag :: "file_cache \<Rightarrow> string option \<Rightarrow> bool" where
  "hasRequiredTag fc tags_str =
     (case tags_str of
        None \<Rightarrow> True
      | Some s \<Rightarrow>
          if s = [] \<or> length (trim s) = 0 then True
          else
            let requiredTags = required_tags_of s in
            if length requiredTags = 0 then True
            else if (case fc_frontmatter_tags fc of
                       Some (TagArray frontmatterTags) \<Rightarrow>
                         list_ex (\<lambda>tag. tag \<in> set requiredTags) frontmatterTags
                     | Some (TagString frontmatterTags) \<Rightarrow>
                         frontmatterTags \<noteq> [] \<and>
                         list_ex (\<lambda>tag. tag \<in> set requiredTags)
                           (map trim (split_on (CHR '','') frontmatterTags))
                     | _ \<Rightarrow> False) then True
            else if (case fc_tags fc of
                       Some inlineTags \<Rightarrow>
                         list_ex (\<lambda>tag. remove1 (CHR ''#'') tag \<in> set requiredTags) inlineTags
                     | None \<Rightarrow> False) then True
            else False)"

subsection \<open>\<^verbatim>\<open>postProcessFrontmatterID\<close>\<close>

text \<open>
  \<^verbatim>\<open>if (this.frontmatterID)\<close> is JavaScript truthiness: the identifier is neither
  \<^verbatim>\<open>null\<close> nor \<^verbatim>\<open>NaN\<close> nor 0. In the branch for exactly one note, the note popped is the
  last of its list; in the fallback branch the note shifted is the first of
  \<open>notes_to_add\<close>, and it is dropped when \<open>id_indexes\<close> has no position for it
  (\<^verbatim>\<open>position !== undefined\<close> fails).
\<close>

text \<open>The branch for exactly one note, behind \<^verbatim>\<open>this.useFrontmatterID = true\<close>.\<close>

definition promote_single :: "file_data \<Rightarrow> all_file \<Rightarrow> all_file" where
  "promote_single d st1 =
     (case frontmatterID st1 of
        None \<Rightarrow> st1
      | Some fid \<Rightarrow>
          if fid = 0 then st1
          else if length (notes_to_add st1) = 1 then
            (if fid \<in> set (EXISTING_IDS d) then
               (case pop (notes_to_add st1) of
                  (Some note, rest) \<Rightarrow>
                    st1\<lparr>notes_to_add := rest,
                        id_indexes := snd (pop (id_indexes st1)),
                        notes_to_edit := notes_to_edit st1 @ [(note, fid)]\<rparr>
                | (None, rest) \<Rightarrow> st1)
             else st1)
          else if length (inline_notes_to_add st1) = 1 \<or> length (regex_notes_to_add st1) = 1 then
            (if inline_notes_to_add st1 \<noteq> [] then
               (if fid \<in> set (EXISTING_IDS d) then
                  (case pop (inline_notes_to_add st1) of
                     (Some note, rest) \<Rightarrow>
                       st1\<lparr>inline_notes_to_add := rest,
                           inline_id_indexes := snd (pop (inline_id_indexes st1)),
                           notes_to_edit := notes_to_edit st1 @ [(note, fid)]\<rparr>
                   | (None, rest) \<Rightarrow> st1)
                else st1)
             else
               (if fid \<in> set (EXISTING_IDS d) then
                  (case pop (regex_notes_to_add st1) of
                     (Some note, rest) \<Rightarrow>
                       st1\<lparr>regex_notes_to_add := rest,
                           regex_id_indexes := snd (pop (regex_id_indexes st1)),
                           notes_to_edit := notes_to_edit st1 @ [(note, fid)]\<rparr>
                   | (None, rest) \<Rightarrow> st1)
                else st1))
          else if length (notes_to_edit st1) = 1 then
            (case notes_to_edit st1 of
               (note, identifier) # rest \<Rightarrow>
                 if identifier \<noteq> fid \<and> fid \<in> set (EXISTING_IDS d)
                 then st1\<lparr>notes_to_edit := (note, fid) # rest\<rparr> else st1
             | [] \<Rightarrow> st1)
          else st1)"

text \<open>The fallback branch, behind \<^verbatim>\<open>this.useFrontmatterID = false\<close>.\<close>

definition fallback_inline :: "file_data \<Rightarrow> all_file \<Rightarrow> all_file" where
  "fallback_inline d st1 =
     (case frontmatterID st1 of
        None \<Rightarrow> st1
      | Some fid \<Rightarrow>
          if fid \<noteq> 0 \<and> fid \<in> set (EXISTING_IDS d) then
            (if length (notes_to_add st1) > 0 then
               (case (shift (notes_to_add st1), shift (id_indexes st1)) of
                  ((Some note, rest), (Some position, positions)) \<Rightarrow>
                    st1\<lparr>notes_to_add := rest, id_indexes := positions,
                        notes_to_edit := notes_to_edit st1 @ [(note, fid)],
                        notesToWriteInline := notesToWriteInline st1 @ [(position, fid)]\<rparr>
                | ((_, rest), (_, positions)) \<Rightarrow>
                    st1\<lparr>notes_to_add := rest, id_indexes := positions\<rparr>)
             else st1)
          else st1)"

definition postProcessFrontmatterID :: "file_data \<Rightarrow> all_file \<Rightarrow> all_file" where
  "postProcessFrontmatterID d st =
     (let totalNotes = length (notes_to_add st) + length (inline_notes_to_add st)
                       + length (regex_notes_to_add st) + length (notes_to_edit st)
      in
      if saveIDToFrontmatter d \<and> totalNotes = 1
      then promote_single d (st\<lparr>useFrontmatterID := True\<rparr>)
      else fallback_inline d (st\<lparr>useFrontmatterID := False\<rparr>))"

subsection \<open>\<^verbatim>\<open>scanFile\<close>\<close>

text \<open>
  \<^verbatim>\<open>this.data.regexp_tags && this.data.regexp_tags[a] ? this.data.regexp_tags[a].trim() : ""\<close>
\<close>

definition sort_tags :: "file_data \<Rightarrow> string \<Rightarrow> string" where
  "sort_tags d a =
     (case regexp_tags d of
        None \<Rightarrow> []
      | Some rt \<Rightarrow> (case map_of rt a of
                      None \<Rightarrow> []
                    | Some s \<Rightarrow> if s = [] then [] else trim s))"

text \<open>
  \<^verbatim>\<open>Object.keys(this.custom_regexps)\<close>, then, when \<^verbatim>\<open>regex_required_tags\<close> is set, the
  sort whose comparator puts a type with tags before a type without and leaves every
  other pair as it is: a stable sort, so the types with tags in their order, then the
  others in theirs. \<open>custom_regexps\<close> lists the object's properties, each key once, in
  the order \<^verbatim>\<open>Object.keys\<close> gives them.
\<close>

definition sorted_note_types :: "file_data \<Rightarrow> string list" where
  "sorted_note_types d =
     (let noteTypes = map fst (custom_regexps d) in
      if regex_required_tags d then
        filter (\<lambda>a. sort_tags d a \<noteq> []) noteTypes @ filter (\<lambda>a. sort_tags d a = []) noteTypes
      else noteTypes)"

text \<open>
  The required tags configured for a note type, as the loop reads them:
  \<^verbatim>\<open>this.data.regexp_tags ? this.data.regexp_tags[note_type] : ""\<close>
  (\<open>None\<close> for \<^verbatim>\<open>undefined\<close>).
\<close>

definition configured_tags :: "file_data \<Rightarrow> string \<Rightarrow> string option" where
  "configured_tags d note_type =
     (case regexp_tags d of None \<Rightarrow> Some [] | Some rt \<Rightarrow> map_of rt note_type)"

text \<open>The body of the loop over the note types.\<close>

definition scan_note_type ::
  "sentinels \<Rightarrow> file_data \<Rightarrow> file_cache \<Rightarrow> scan_input \<Rightarrow> all_file \<Rightarrow> string \<Rightarrow> all_file" where
  "scan_note_type k d fc inp st note_type =
     (case map_of (custom_regexps d) note_type of
        None \<Rightarrow> st
      | Some regexp_str \<Rightarrow>
          if regexp_str = [] then st
          else
            let requiredTags = configured_tags d note_type in
            if regex_required_tags d \<and> \<not> hasRequiredTag fc requiredTags then st
            else search k d (in_regex inp note_type regexp_str) st)"

definition scanDeletions :: "scan_input \<Rightarrow> all_file \<Rightarrow> all_file" where
  "scanDeletions inp st = st\<lparr>notes_to_delete := notes_to_delete st @ in_deletions inp\<rparr>"

definition scan_custom :: "sentinels \<Rightarrow> file_data \<Rightarrow> file_cache \<Rightarrow> scan_input \<Rightarrow> all_file \<Rightarrow> all_file" where
  "scan_custom k d fc inp st = foldl (scan_note_type k d fc inp) st (sorted_note_types d)"

definition scanFile :: "sentinels \<Rightarrow> file_data \<Rightarrow> file_cache \<Rightarrow> scan_input \<Rightarrow> all_file \<Rightarrow> all_file" where
  "scanFile k d fc inp st =
     (let st1 = setupScan d fc inp st;
          st2 = scanNotes k d (in_notes inp) st1;
          st3 = scanInlineNotes k d (in_inline inp) st2;
          st4 = scan_custom k d fc inp st3;
          st5 = st4\<lparr>all_notes_to_add :=
                      notes_to_add st4 @ inline_notes_to_add st4 @ regex_notes_to_add st4\<rparr>;
          st6 = scanDeletions inp st5
      in postProcessFrontmatterID d st6)"

section \<open>The write pass (\<^verbatim>\<open>writeIDs\<close>, file.ts)\<close>

definition id_to_str :: "int \<Rightarrow> bool \<Rightarrow> bool \<Rightarrow> string" where
  "id_to_str identifier inline cmt =
     (let result = ''ID: '' @ toString identifier;
          result = (if cmt then ''<!--'' @ result @ ''-->'' else result)
      in if inline then result @ '' '' else result @ [LF])"

definition fix_newline_ids :: "string \<Rightarrow> string" where
  "fix_newline_ids s = collapse_double 0 0 s"

text \<open>\<^verbatim>\<open>getTargetID\<close>, a closure of \<^verbatim>\<open>writeIDs\<close>.\<close>

definition getTargetID :: "all_file \<Rightarrow> int option" where
  "getTargetID st =
     (case notes_to_edit st of
        (note, identifier) # rest \<Rightarrow> Some identifier
      | [] \<Rightarrow> (case note_ids st of [] \<Rightarrow> None | i # rest \<Rightarrow> i))"

text \<open>The edits of the branch \<^verbatim>\<open>if (this.useFrontmatterID)\<close>.\<close>

definition frontmatter_write_edits :: "all_file \<Rightarrow> edit list" where
  "frontmatter_write_edits st =
     map (\<lambda>span. \<lparr>e_start = fst span, e_end = snd span, e_text = []\<rparr>) (existingIDSpans st)
     @ (case getTargetID st of
          None \<Rightarrow> []
        | Some targetID \<Rightarrow>
            if targetID = 0 then []
            else (case frontmatter_match (file_text st) of
                    Some (frontmatter, len) \<Rightarrow>
                      let newFrontmatter =
                            (if has_nid_line frontmatter
                             then replace_nid_line (''nid: '' @ toString targetID) frontmatter
                             else frontmatter @ [LF] @ ''nid: '' @ toString targetID)
                      in [\<lparr>e_start = 0, e_end = len,
                           e_text = ''---'' @ [LF] @ trim newFrontmatter @ [LF] @ ''---''\<rparr>]
                  | None \<Rightarrow>
                      [\<lparr>e_start = 0, e_end = 0,
                        e_text = ''---'' @ [LF] @ ''nid: '' @ toString targetID @ [LF] @ ''---'' @ [LF]\<rparr>]))"

text \<open>The fallback: the edit that takes \<^verbatim>\<open>nid\<close> out of the front matter.\<close>

definition frontmatter_removal_edits :: "all_file \<Rightarrow> edit list" where
  "frontmatter_removal_edits st =
     (if truthy (frontmatterID st) then
        (case frontmatter_match (file_text st) of
           None \<Rightarrow> []
         | Some (frontmatter, len) \<Rightarrow>
             if has_nid_line frontmatter then
               (let newFrontmatter =
                      (if nid_on_last_line (trim frontmatter) then strip_nid_tail frontmatter
                       else clear_nid_value frontmatter)
                in [\<lparr>e_start = 0, e_end = len,
                     e_text = ''---'' @ [LF] @ newFrontmatter @ [LF] @ ''---''\<rparr>])
             else [])
      else [])"

text \<open>
  One of the three \<^verbatim>\<open>forEach\<close> loops over the positions of new identifiers: the
  identifier of the position with index \<open>index\<close> is \<^verbatim>\<open>this.note_ids[index + offset]\<close>,
  and an edit is made when it is truthy (\<^verbatim>\<open>undefined\<close> behind the end of the array
  is not).
\<close>

definition note_id_at :: "all_file \<Rightarrow> nat \<Rightarrow> int option" where
  "note_id_at st i = (if i < length (note_ids st) then note_ids st ! i else None)"

definition new_id_edits :: "all_file \<Rightarrow> (int \<Rightarrow> string) \<Rightarrow> nat \<Rightarrow> nat list \<Rightarrow> edit list" where
  "new_id_edits st render offset positions =
     concat (map (\<lambda>(index, id_position).
        case note_id_at st (index + offset) of
          None \<Rightarrow> []
        | Some identifier \<Rightarrow>
            if identifier = 0 then []
            else [\<lparr>e_start = id_position, e_end = id_position, e_text = render identifier\<rparr>])
       (enumerate 0 positions))"

definition inline_write_edits :: "file_data \<Rightarrow> all_file \<Rightarrow> edit list" where
  "inline_write_edits d st =
     frontmatter_removal_edits st
     @ map (\<lambda>item. \<lparr>e_start = fst item, e_end = fst item,
                     e_text = id_to_str (snd item) False (comment d)\<rparr>) (notesToWriteInline st)
     @ new_id_edits st (\<lambda>identifier. id_to_str identifier False (comment d)) 0 (id_indexes st)
     @ new_id_edits st (\<lambda>identifier. id_to_str identifier True (comment d))
         (length (notes_to_add st)) (inline_id_indexes st)
     @ new_id_edits st (\<lambda>identifier. [LF] @ trim (id_to_str identifier False (comment d)))
         (length (notes_to_add st) + length (inline_notes_to_add st)) (regex_id_indexes st)"

definition write_edits :: "file_data \<Rightarrow> all_file \<Rightarrow> edit list" where
  "write_edits d st =
     (if useFrontmatterID st then frontmatter_write_edits st else inline_write_edits d st)"

definition writeIDs :: "file_data \<Rightarrow> all_file \<Rightarrow> all_file" where
  "writeIDs d st =
     (let st1 = st\<lparr>file_text := apply_edits (file_text st) (write_edits d st)\<rparr>
      in if \<not> useFrontmatterID st1 then st1\<lparr>file_text := fix_newline_ids (file_text st1)\<rparr>
         else st1)"

section \<open>Bulk delete (\<^verbatim>\<open>checkAndBulkDelete\<close>, bulk-delete.ts)\<close>

text \<open>
  \<^verbatim>\<open>ID_REGEXP_STR\<close> is a constant of note.ts, which is not among the sources; the
  matches of \<^verbatim>\<open>new RegExp(ID_REGEXP_STR, 'g')\<close> in the content are an input: for each
  match its \<^verbatim>\<open>index\<close>, the length of \<^verbatim>\<open>m[0]\<close> and the group \<^verbatim>\<open>m[1]\<close>.
\<close>

record id_match =
  im_index :: nat
  im_length :: nat
  im_group :: string

text \<open>What the function does to the outside, in the order it does it.\<close>

datatype effect =
    Notice string
  | Open_confirmation string nat
  | Invoke_deleteNotes "int list"
  | Console_error
  | Vault_modify string

text \<open>
  What the outside answers: the user, Anki Connect (a response with its \<^verbatim>\<open>error\<close>
  property, \<open>None\<close> when it has none, or an exception) and the vault.
\<close>

datatype anki_answer = Anki_response "string option" | Anki_unreachable

record bulk_world =
  confirmed :: bool
  anki :: anki_answer
  modify_fails :: bool

text \<open>\<^verbatim>\<open>matches.map(m => parseInt(m[1])).filter(id => !isNaN(id))\<close>\<close>

definition inline_ids :: "id_match list \<Rightarrow> int list" where
  "inline_ids matches = List.map_filter (\<lambda>m. parseInt (im_group m)) matches"

text \<open>The front-matter identifier: \<open>None\<close> for \<^verbatim>\<open>null\<close> and for \<^verbatim>\<open>NaN\<close>.\<close>

definition bulk_frontmatterID :: "string \<Rightarrow> int option" where
  "bulk_frontmatterID content =
     (case frontmatter_match content of
        None \<Rightarrow> None
      | Some (frontmatter, len) \<Rightarrow>
          (case nid_value_scan True frontmatter of
             None \<Rightarrow> None
           | Some ds \<Rightarrow> parseInt ds))"

definition bulk_ids :: "string \<Rightarrow> id_match list \<Rightarrow> int list" where
  "bulk_ids content matches =
     inline_ids matches
     @ (case bulk_frontmatterID content of None \<Rightarrow> [] | Some fid \<Rightarrow> [fid])"

text \<open>
  \<^verbatim>\<open>newContent.replace(regex, "")\<close>: the content without the spans of the matches, which
  \<^verbatim>\<open>matchAll\<close> lists from left to right.
\<close>

definition without_matches :: "string \<Rightarrow> id_match list \<Rightarrow> string" where
  "without_matches content matches =
     rebuild 0 content
       (map (\<lambda>m. \<lparr>e_start = im_index m, e_end = im_index m + im_length m, e_text = []\<rparr>) matches)"

text \<open>The replacer of \<^verbatim>\<open>newContent.replace(frontmatterRegex, ...)\<close>, applied where the pattern matches.\<close>

definition without_frontmatter_nid :: "string \<Rightarrow> string" where
  "without_frontmatter_nid content =
     (case frontmatter_match content of
        None \<Rightarrow> content
      | Some (fmContent, len) \<Rightarrow>
          let newFm = (if nid_on_last_line (trim fmContent) then strip_nid_tail fmContent
                       else replace_nid_line ''nid:'' fmContent)
          in ''---'' @ [LF] @ newFm @ [LF] @ ''---'' @ drop len content)"

definition bulk_newContent :: "string \<Rightarrow> id_match list \<Rightarrow> string" where
  "bulk_newContent content matches =
     (let newContent = without_matches content matches
      in if truthy (bulk_frontmatterID content) then without_frontmatter_nid newContent
         else newContent)"

text \<open>
  \<^verbatim>\<open>checkAndBulkDelete\<close> for a file named \<open>name\<close> with the given content: the effects,
  in order. The callback of the confirmation runs when the user confirms.
\<close>

definition checkAndBulkDelete ::
  "bulk_world \<Rightarrow> string \<Rightarrow> string \<Rightarrow> id_match list \<Rightarrow> effect list" where
  "checkAndBulkDelete w name content matches =
     (let ids = bulk_ids content matches in
      if length ids = 0 then [Notice ''No IDs found in this file.'']
      else
        Open_confirmation name (length ids)
        # (if \<not> confirmed w then []
           else
             Invoke_deleteNotes ids
             # (let removed =
                      Vault_modify (bulk_newContent content matches)
                      # (if modify_fails w then [Notice ''Error updating file.'', Console_error]
                         else [Notice (''Deleted '' @ toString (int (length ids))
                                       @ '' notes from Anki and removed IDs from file.'')])
                in
                case anki w of
                  Anki_unreachable \<Rightarrow> [Console_error, Notice ''Failed to connect to Anki.'']
                | Anki_response None \<Rightarrow> removed
                | Anki_response (Some e) \<Rightarrow>
                    if e = [] then removed
                    else [Notice (''Error deleting notes from Anki: '' @ e)])))"

section \<open>Notions the properties of the scanner are stated with\<close>

text \<open>
  The part of the state that becomes the sync plan's notes to add and to edit, with the
  positions kept in step with the notes to add.
\<close>

definition sync_lists ::
  "all_file \<Rightarrow> (anki_note list \<times> nat list) \<times> (anki_note list \<times> nat list)
                \<times> (anki_note list \<times> nat list) \<times> (anki_note \<times> int) list" where
  "sync_lists st =
     ((notes_to_add st, id_indexes st), (inline_notes_to_add st, inline_id_indexes st),
      (regex_notes_to_add st, regex_id_indexes st), notes_to_edit st)"

text \<open>\<^verbatim>\<open>totalNotes\<close> of \<^verbatim>\<open>postProcessFrontmatterID\<close>.\<close>

definition totalNotes :: "all_file \<Rightarrow> nat" where
  "totalNotes st =
     length (notes_to_add st) + length (inline_notes_to_add st)
     + length (regex_notes_to_add st) + length (notes_to_edit st)"

text \<open>
  The length of the stretch two spans share, and the reading of ``pairwise
  non-overlapping up to one character'': no two spans of the list share more than one
  character.
\<close>

definition shared_length :: "span \<Rightarrow> span \<Rightarrow> nat" where
  "shared_length a b = min (snd a) (snd b) - max (fst a) (fst b)"

fun pairwise_apart :: "span list \<Rightarrow> bool" where
  "pairwise_apart [] = True"
| "pairwise_apart (a # spans) =
     (list_all (\<lambda>b. shared_length a b \<le> 1) spans \<and> pairwise_apart spans)"

text \<open>
  What the scanner does establish: going through the spans in the order they were
  accepted, none is contained, with the leeway of \<open>contained_in\<close>, in the spans that
  were in the list when it was tested.
\<close>

fun accepted_in_turn :: "span list \<Rightarrow> span list \<Rightarrow> bool" where
  "accepted_in_turn earlier [] = True"
| "accepted_in_turn earlier (a # spans) =
     (\<not> contained_in a earlier \<and> accepted_in_turn (earlier @ [a]) spans)"

text \<open>
  A required-tags setting that names no tag: undefined, empty, white space only, or
  nothing but empty pieces between its commas.
\<close>

definition blank_tags :: "string option \<Rightarrow> bool" where
  "blank_tags tags_str =
     (case tags_str of
        None \<Rightarrow> True
      | Some s \<Rightarrow> s = [] \<or> list_all is_space s \<or> required_tags_of s = [])"

section \<open>Example data\<close>

definition ex_sentinels :: sentinels where
  "ex_sentinels = \<lparr>CLOZE_ERROR = 42, NOTE_TYPE_ERROR = 69\<rparr>"

definition ex_note :: anki_note where
  "ex_note = \<lparr>deckName = ''Default'', modelName = ''Basic'',
               note_fields = [(''Front'', ''Q''), (''Back'', ''A'')], tags = []\<rparr>"

definition ex_data :: "int list \<Rightarrow> bool \<Rightarrow> file_data" where
  "ex_data ids frontmatter_mode =
     \<lparr>EXISTING_IDS = ids, saveIDToFrontmatter = frontmatter_mode, comment = False,
      regex_required_tags = False, regexp_tags = None, custom_regexps = []\<rparr>"

definition ex_cache :: file_cache where
  "ex_cache = \<lparr>fc_nid = NidAbsent, fc_frontmatter_tags = None, fc_tags = None\<rparr>"

text \<open>
  A match at \<open>index\<close> of the given length whose parse gave \<open>ex_note\<close> and \<open>identifier\<close>;
  the scanner finds no identifier marker again in it.
\<close>

definition ex_match :: "nat \<Rightarrow> nat \<Rightarrow> int option \<Rightarrow> scanned" where
  "ex_match index len identifier =
     \<lparr>s_index = index, s_length = len, s_position = index + len, s_note = ex_note,
      s_identifier = identifier, s_id_rel = None\<rparr>"

text \<open>
  A document of ten characters with a question and an answer, and two custom patterns:
  the first matches the question line, characters 0 to 4, the second the question and
  the answer, characters 0 to 9. The document has no tag line and no identifier marker,
  so only the variant of a pattern without the two suffixes matches.
\<close>

definition ex_qa_text :: string where
  "ex_qa_text = ''Q: x'' @ [LF] @ ''A: y'' @ [LF]"

definition ex_question_pattern :: string where
  "ex_question_pattern = ''^Q: (.*)$''"

definition ex_pair_pattern :: string where
  "ex_pair_pattern = ''^Q: (.*)'' @ [LF] @ ''A: (.*)$''"

definition ex_regex :: "string \<Rightarrow> string \<Rightarrow> bool \<Rightarrow> bool \<Rightarrow> scanned list" where
  "ex_regex note_type regexp_str search_id search_tags =
     (if search_id \<or> search_tags then []
      else if regexp_str = ex_question_pattern then [ex_match 0 4 None]
      else if regexp_str = ex_pair_pattern then [ex_match 0 9 None]
      else [])"

definition ex_two_patterns :: file_data where
  "ex_two_patterns =
     (ex_data [] False)\<lparr>custom_regexps :=
        [(''Question'', ex_question_pattern), (''Pair'', ex_pair_pattern)]\<rparr>"

text \<open>
  The input of a scan of a document without global tags: \<^verbatim>\<open>"".split(TAG_SEP)\<close> is the
  list of one empty string. \<open>ex_new_note\<close> is \<open>ex_note\<close> with these global tags added.
\<close>

definition ex_input :: scan_input where
  "ex_input = \<lparr>in_ignore = [], in_notes = [], in_inline = [], in_regex = ex_regex,
                in_deletions = [], in_global_tags = [[]]\<rparr>"

definition ex_new_note :: anki_note where
  "ex_new_note = ex_note\<lparr>tags := [[]]\<rparr>"

text \<open>
  A document whose text looks like a cloze note but has no complete cloze deletion, with
  the marker of the identifier 7 behind it. The match of a cloze pattern with the
  identifier suffix covers the ten characters, its marker is found again at offset 4
  (\<^verbatim>\<open>\nID: 7\<close>, six characters), and its parse gave the cloze error. The match of the
  pattern without the suffix covers the first four characters.
\<close>

definition ex_cloze_text :: string where
  "ex_cloze_text = ''a {b'' @ [LF] @ ''ID: 7''"

definition ex_cloze_match :: scanned where
  "ex_cloze_match = (ex_match 0 10 (Some 42))\<lparr>s_id_rel := Some (4, 6)\<rparr>"

definition ex_cloze_plain_match :: scanned where
  "ex_cloze_plain_match = ex_match 0 4 (Some 42)"

section \<open>Notions the properties of the bulk delete are stated with\<close>

text \<open>The content has no front matter, or its front matter has no line that starts with \<^verbatim>\<open>nid:\<close>.\<close>

definition no_nid_property :: "string \<Rightarrow> bool" where
  "no_nid_property content =
     (case frontmatter_match content of
        None \<Rightarrow> True
      | Some (frontmatter, len) \<Rightarrow> \<not> has_nid_line frontmatter)"

text \<open>
  A note file with the front-matter identifier 7 and the inline marker \<^verbatim>\<open>ID: 12\<close>, and
  the one match of the identifier pattern in it.
\<close>

definition ex_content :: string where
  "ex_content = ''---'' @ [LF] @ ''nid: 7'' @ [LF] @ ''---'' @ [LF] @ ''Q'' @ [LF] @ ''ID: 12'' @ [LF]"

definition ex_id_match :: id_match where
  "ex_id_match = \<lparr>im_index = 16, im_length = 7, im_group = ''12''\<rparr>"

definition ex_world :: bulk_world where
  "ex_world = \<lparr>confirmed = True, anki = Anki_response None, modify_fails = False\<rparr>"

section \<open>Notions the properties of the write pass are stated with\<close>




definition ex_frontmatter_text :: string where
  "ex_frontmatter_text =
     ''---'' @ [LF] @ ''title: x'' @ [LF] @ ''nid: 12'' @ [LF] @ ''---'' @ [LF]
     @ ''START'' @ [LF] @ ''Basic'' @ [LF] @ ''Q'' @ [LF] @ ''Back: A'' @ [LF] @ ''END'' @ [LF]"

text \<open>A block note with the known identifier 12 and no empty line in front of the marker.\<close>

definition ex_known_text :: string where
  "ex_known_text =
     ''START'' @ [LF] @ ''Basic'' @ [LF] @ ''Q'' @ [LF] @ ''Back: A'' @ [LF] @ ''ID: 12''
     @ [LF] @ ''END'' @ [LF]"

text \<open>
  The note file whose front matter holds the identifier 12, with its one block note
  without an identifier, as the scan leaves it in front of \<open>postProcessFrontmatterID\<close>.
\<close>

definition ex_single_new :: all_file where
  "ex_single_new =
     (new_AllFile ex_frontmatter_text)
       \<lparr>ignore_spans := [(25, 50)], notes_to_add := [ex_new_note], id_indexes := [47],
        all_notes_to_add := [ex_new_note], global_tags := [[]], frontmatterID := Some 12\<rparr>"

text \<open>
  The same note file with the front-matter value \<^verbatim>\<open>"0"\<close>, a string, which \<^verbatim>\<open>setupScan\<close>
  reads as the number 0: the state its scan leaves in front of
  \<open>postProcessFrontmatterID\<close>, and its scan in front-matter mode when 0 is among the
  known identifiers.
\<close>

definition ex_zero_text :: string where
  "ex_zero_text =
     ''---'' @ [LF] @ ''title: x'' @ [LF] @ ''nid: '' @ [CHR 0x22] @ ''0'' @ [CHR 0x22, LF]
     @ ''---'' @ [LF]
     @ ''START'' @ [LF] @ ''Basic'' @ [LF] @ ''Q'' @ [LF] @ ''Back: A'' @ [LF] @ ''END'' @ [LF]"

definition ex_single_zero :: all_file where
  "ex_single_zero =
     (new_AllFile ex_zero_text)
       \<lparr>ignore_spans := [(26, 51)], notes_to_add := [ex_new_note], id_indexes := [48],
        all_notes_to_add := [ex_new_note], global_tags := [[]], frontmatterID := Some 0\<rparr>"

definition ex_zero_scan :: all_file where
  "ex_zero_scan =
     scanFile ex_sentinels (ex_data [0] True) (ex_cache\<lparr>fc_nid := NidNumber 0\<rparr>)
       (ex_input\<lparr>in_ignore := [(26, 51)],
                 in_notes := [(ex_match 26 25 None)\<lparr>s_position := 48\<rparr>]\<rparr>)
       (new_AllFile ex_zero_text)"

text \<open>
  A note file with the front-matter identifier 12 and two block notes without an
  identifier, as the scan leaves it in front of \<open>postProcessFrontmatterID\<close>.
\<close>

definition ex_two_block_text :: string where
  "ex_two_block_text =
     ex_frontmatter_text
     @ ''START'' @ [LF] @ ''Basic'' @ [LF] @ ''Q2'' @ [LF] @ ''Back: A2'' @ [LF] @ ''END'' @ [LF]"

definition ex_two_blocks :: all_file where
  "ex_two_blocks =
     (new_AllFile ex_two_block_text)
       \<lparr>ignore_spans := [(25, 50), (51, 78)], notes_to_add := [ex_new_note, ex_new_note],
        id_indexes := [47, 75], all_notes_to_add := [ex_new_note, ex_new_note],
        global_tags := [[]], frontmatterID := Some 12\<rparr>"

text \<open>The scan of that file in front-matter mode when Anki knows the identifier 12.\<close>

definition ex_two_block_scan :: all_file where
  "ex_two_block_scan =
     scanFile ex_sentinels (ex_data [12] True) (ex_cache\<lparr>fc_nid := NidNumber 12\<rparr>)
       (ex_input\<lparr>in_ignore := [(25, 50), (51, 78)],
                 in_notes := [(ex_match 25 25 None)\<lparr>s_position := 47\<rparr>,
                              (ex_match 51 27 None)\<lparr>s_position := 75\<rparr>]\<rparr>)
       (new_AllFile ex_two_block_text)"

text \<open>
  A note file with the front-matter identifier 12 and two inline notes without an
  identifier, the matches of the inline pattern in it, and its scan in front-matter mode
  when Anki knows the identifier 12.
\<close>

definition ex_two_inline_text :: string where
  "ex_two_inline_text =
     ''---'' @ [LF] @ ''nid: 12'' @ [LF] @ ''---'' @ [LF]
     @ ''STARTI [Basic] Q1 Back: A1 ENDI'' @ [LF]
     @ ''STARTI [Basic] Q2 Back: A2 ENDI'' @ [LF]"

definition ex_two_inline_scan :: all_file where
  "ex_two_inline_scan =
     scanFile ex_sentinels (ex_data [12] True) (ex_cache\<lparr>fc_nid := NidNumber 12\<rparr>)
       (ex_input\<lparr>in_ignore := [(16, 47), (48, 79)],
                 in_inline := [(ex_match 16 31 None)\<lparr>s_position := 43\<rparr>,
                               (ex_match 48 31 None)\<lparr>s_position := 75\<rparr>]\<rparr>)
       (new_AllFile ex_two_inline_text)"



text \<open>The scan, in front-matter mode, of the note file whose front matter holds the identifier 12.\<close>

definition ex_frontmatter_scan :: all_file where
  "ex_frontmatter_scan =
     scanFile ex_sentinels (ex_data [12] True) (ex_cache\<lparr>fc_nid := NidNumber 12\<rparr>)
       (ex_input\<lparr>in_ignore := [(25, 50)],
                 in_notes := [(ex_match 25 25 None)\<lparr>s_position := 47\<rparr>]\<rparr>)
       (new_AllFile ex_frontmatter_text)"

text \<open>Between two states the ignore list has only grown, by spans accepted in turn.\<close>

definition grows :: "all_file \<Rightarrow> all_file \<Rightarrow> bool" where
  "grows st st' =
     (\<exists>acc. ignore_spans st' = ignore_spans st @ acc \<and> accepted_in_turn (ignore_spans st) acc)"

section \<open>Properties of the edit engine\<close>

subsection \<open>Sorting\<close>

lemma mset_insert_desc: "mset (insert_desc e xs) = add_mset e (mset xs)"
  by (induction xs) auto

lemma mset_sort_edits: "mset (sort_edits xs) = mset xs"
  unfolding sort_edits_def by (induction xs) (auto simp: mset_insert_desc)

lemma set_insert_desc: "set (insert_desc e xs) = insert e (set xs)"
  by (induction xs) auto

lemma set_sort_edits: "set (sort_edits xs) = set xs"
  using mset_sort_edits[of xs] by (metis set_mset_mset)

lemma sorted_insert_desc:
  "sorted_wrt (\<lambda>a b. e_start b \<le> e_start a) xs \<Longrightarrow>
   sorted_wrt (\<lambda>a b. e_start b \<le> e_start a) (insert_desc e xs)"
  by (induction xs) (auto simp: set_insert_desc)

lemma sorted_sort_edits: "sorted_wrt (\<lambda>a b. e_start b \<le> e_start a) (sort_edits xs)"
  unfolding sort_edits_def by (induction xs) (auto simp: sorted_insert_desc)

lemma distinct_starts_sort_edits:
  "distinct (map e_start xs) \<Longrightarrow> distinct (map e_start (sort_edits xs))"
  using mset_eq_imp_distinct_iff[of "map e_start (sort_edits xs)" "map e_start xs"]
  by (simp add: mset_sort_edits)

lemma desc_unique:
  assumes "sorted_wrt (\<lambda>a b. e_start b \<le> e_start a) xs"
      and "sorted_wrt (\<lambda>a b. e_start b \<le> e_start a) ys"
      and "mset xs = mset ys" and "distinct (map e_start xs)"
  shows "xs = ys"
proof -
  have dy: "distinct (map e_start ys)"
    using assms(3,4) mset_eq_imp_distinct_iff[of "map e_start xs" "map e_start ys"] by simp
  have sx: "sorted (rev (map e_start xs))" using assms(1)
    by (simp add: sorted_wrt_rev sorted_wrt_map)
  have sy: "sorted (rev (map e_start ys))" using assms(2)
    by (simp add: sorted_wrt_rev sorted_wrt_map)
  have "set (rev (map e_start xs)) = set (rev (map e_start ys))"
    using assms(3) by (metis mset_eq_setD set_map set_rev)
  then have "rev (map e_start xs) = rev (map e_start ys)"
    using sx sy assms(4) dy by (intro sorted_distinct_set_unique) auto
  then have m: "map e_start xs = map e_start ys" by simp
  have "inj_on e_start (set xs \<union> set ys)"
    using assms(3,4) by (metis distinct_map mset_eq_setD sup.idem)
  then show ?thesis using m by (simp add: map_inj_on)
qed

lemma sort_edits_perm:
  assumes "mset ys = mset xs" and "distinct (map e_start xs)"
  shows "sort_edits ys = sort_edits xs"
  using desc_unique[OF sorted_sort_edits sorted_sort_edits, of xs ys] assms
  by (simp add: mset_sort_edits distinct_starts_sort_edits)

lemma strict_desc:
  "sorted_wrt (\<lambda>a b. e_start b \<le> e_start a) xs \<Longrightarrow> distinct (map e_start xs) \<Longrightarrow>
   sorted_wrt (\<lambda>a b. e_start b < e_start a) xs"
proof (induction xs)
  case Nil
  then show ?case by simp
next
  case (Cons a xs)
  have "e_start x < e_start a" if "x \<in> set xs" for x
  proof -
    have "e_start x \<le> e_start a" using Cons.prems(1) that by simp
    moreover have "e_start a \<notin> e_start ` set xs" using Cons.prems(2) by simp
    then have "e_start x \<noteq> e_start a" using that by (metis imageI)
    ultimately show ?thesis by simp
  qed
  then show ?case using Cons by simp
qed

lemma non_overlappingD:
  "non_overlapping xs \<Longrightarrow> a \<in> set xs \<Longrightarrow> b \<in> set xs \<Longrightarrow> a \<noteq> b \<Longrightarrow> disjoint_edits a b"
  by (induction xs) (auto simp: list_all_iff disjoint_edits_def)

subsection \<open>Back-to-front splicing of a chain of disjoint edits\<close>

lemma splice_chain:
  assumes "sorted_wrt (\<lambda>a b. e_end a \<le> e_start b) es"
      and "list_all (well_formed_edit t) es"
      and "list_all (\<lambda>e. pos \<le> e_start e) es" and "pos \<le> length t"
  shows "foldl splice t (rev es) = take pos t @ rebuild pos t es"
  using assms
proof (induction es arbitrary: pos)
  case Nil
  then show ?case by simp
next
  case (Cons e es)
  have wf: "e_start e \<le> e_end e" "e_end e \<le> length t" and p: "pos \<le> e_start e"
    using Cons.prems by (auto simp: well_formed_edit_def)
  have ih: "foldl splice t (rev es) = take (e_end e) t @ rebuild (e_end e) t es"
    using Cons.prems wf by (intro Cons.IH) (auto simp: list_all_iff)
  have tk: "take pos t @ take (e_start e - pos) (drop pos t) = take (e_start e) t"
    using p by (metis le_add_diff_inverse take_add)
  have "foldl splice t (rev (e # es)) = splice (take (e_end e) t @ rebuild (e_end e) t es) e"
    by (simp add: ih)
  also have "\<dots> = take (e_start e) t @ e_text e @ rebuild (e_end e) t es"
    using wf by (simp add: splice_def min_def)
  also have "\<dots> = take pos t @ rebuild pos t (e # es)"
    using tk by (metis append.assoc rebuild.simps(2))
  finally show ?case .
qed

lemma sorted_chain:
  assumes "non_overlapping xs" and "distinct (map e_start xs)"
      and "list_all (well_formed_edit t) xs"
  shows "sorted_wrt (\<lambda>a b. e_end a \<le> e_start b) (rev (sort_edits xs))"
proof -
  have s: "sorted_wrt (\<lambda>a b. e_start b < e_start a) (sort_edits xs)"
    using assms(2) by (simp add: strict_desc sorted_sort_edits distinct_starts_sort_edits)
  have "e_end b \<le> e_start a"
    if "a \<in> set (sort_edits xs)" "b \<in> set (sort_edits xs)" "e_start b < e_start a" for a b
  proof -
    have ab: "a \<in> set xs" "b \<in> set xs" "a \<noteq> b"
      using that by (auto simp: set_sort_edits)
    then have "disjoint_edits a b" using assms(1) by (rule non_overlappingD[rotated])
    moreover have "e_start a \<le> e_end a" using ab(1) assms(3)
      by (auto simp: list_all_iff well_formed_edit_def)
    ultimately show ?thesis using that(3) by (auto simp: disjoint_edits_def)
  qed
  then have "sorted_wrt (\<lambda>a b. e_end b \<le> e_start a) (sort_edits xs)"
    using sorted_wrt_mono_rel[of "sort_edits xs" "\<lambda>a b. e_start b < e_start a"
        "\<lambda>a b. e_end b \<le> e_start a"] s by blast
  then show ?thesis by (simp add: sorted_wrt_rev)
qed

subsection \<open>Order of the edit list (claim C1)\<close>

text \<open>
  Claim C1, as stated, fails: two insertions at the same offset have disjoint (empty)
  spans, yet the stable sort keeps them in list order and the second one spliced lands in
  front of the first. The text \<open>ab\<close> with the insertions of \<open>X\<close> and of \<open>Y\<close> at offset
  1 becomes \<open>aYXb\<close> or \<open>aXYb\<close>, depending on the order of the list.
\<close>

theorem apply_edits_order_counterexample:
  "non_overlapping [\<lparr>e_start = 1, e_end = 1, e_text = ''X''\<rparr>, \<lparr>e_start = 1, e_end = 1, e_text = ''Y''\<rparr>]
   \<and> list_all (well_formed_edit ''ab'')
         [\<lparr>e_start = 1, e_end = 1, e_text = ''X''\<rparr>, \<lparr>e_start = 1, e_end = 1, e_text = ''Y''\<rparr>]
   \<and> mset [\<lparr>e_start = 1, e_end = 1, e_text = ''Y''\<rparr>, \<lparr>e_start = 1, e_end = 1, e_text = ''X''\<rparr>]
       = mset [\<lparr>e_start = 1, e_end = 1, e_text = ''X''\<rparr>, \<lparr>e_start = 1, e_end = 1, e_text = ''Y''\<rparr>]
   \<and> apply_edits ''ab'' [\<lparr>e_start = 1, e_end = 1, e_text = ''X''\<rparr>, \<lparr>e_start = 1, e_end = 1, e_text = ''Y''\<rparr>]
       = ''aYXb''
   \<and> apply_edits ''ab'' [\<lparr>e_start = 1, e_end = 1, e_text = ''Y''\<rparr>, \<lparr>e_start = 1, e_end = 1, e_text = ''X''\<rparr>]
       = ''aXYb''"
proof -
  let ?x = "\<lparr>e_start = 1, e_end = 1, e_text = ''X''\<rparr>"
  let ?y = "\<lparr>e_start = 1, e_end = 1, e_text = ''Y''\<rparr>"
  have "non_overlapping [?x, ?y]" by (simp add: disjoint_edits_def)
  moreover have "list_all (well_formed_edit ''ab'') [?x, ?y]"
    by (simp add: well_formed_edit_def)
  moreover have "mset [?y, ?x] = mset [?x, ?y]" by (simp add: add_mset_commute)
  moreover have "apply_edits ''ab'' [?x, ?y] = ''aYXb''"
    by (simp add: apply_edits_def sort_edits_def splice_def)
  moreover have "apply_edits ''ab'' [?y, ?x] = ''aXYb''"
    by (simp add: apply_edits_def sort_edits_def splice_def)
  ultimately show ?thesis by blast
qed

text \<open>
  Claim C1, amended: for every text and every list of pairwise non-overlapping edits
  with pairwise distinct start offsets (each edit's start and end expressed against the
  original text, start \<open>\<le>\<close> end \<open>\<le>\<close> text length), the buffer returned by
  \<open>apply_edits\<close> is the same for every other order of the list; it is the result of
  splicing the edits one by one from the largest start offset to the smallest, and it is
  the original text with each span replaced by its replacement text.
\<close>

theorem apply_edits_order_independent:
  assumes "non_overlapping xs" and "distinct (map e_start xs)"
      and "list_all (well_formed_edit t) xs" and "mset ys = mset xs"
  shows "apply_edits t ys = apply_edits t xs
       \<and> apply_edits t xs = foldl splice t (sort_edits xs)
       \<and> sorted_wrt (\<lambda>a b. e_start b < e_start a) (sort_edits xs)
       \<and> apply_edits t xs = rebuild 0 t (rev (sort_edits xs))"
proof -
  have perm: "apply_edits t ys = apply_edits t xs"
    using sort_edits_perm[OF assms(4,2)] by (simp add: apply_edits_def)
  have desc: "sorted_wrt (\<lambda>a b. e_start b < e_start a) (sort_edits xs)"
    using assms(2) by (simp add: strict_desc sorted_sort_edits distinct_starts_sort_edits)
  have wf: "list_all (well_formed_edit t) (rev (sort_edits xs))"
    using assms(3) by (simp add: list_all_iff set_sort_edits)
  have "foldl splice t (rev (rev (sort_edits xs))) = take 0 t @ rebuild 0 t (rev (sort_edits xs))"
    using sorted_chain[OF assms(1,2,3)] wf by (intro splice_chain) (auto simp: list_all_iff)
  then have "apply_edits t xs = rebuild 0 t (rev (sort_edits xs))"
    by (simp add: apply_edits_def)
  then show ?thesis using perm desc by (simp add: apply_edits_def)
qed

theorem apply_edits_order_independent_witness:
  "non_overlapping [\<lparr>e_start = 1, e_end = 2, e_text = ''X''\<rparr>, \<lparr>e_start = 4, e_end = 4, e_text = ''YZ''\<rparr>]
   \<and> distinct (map e_start [\<lparr>e_start = 1, e_end = 2, e_text = ''X''\<rparr>, \<lparr>e_start = 4, e_end = 4, e_text = ''YZ''\<rparr>])
   \<and> list_all (well_formed_edit ''abcdef'')
         [\<lparr>e_start = 1, e_end = 2, e_text = ''X''\<rparr>, \<lparr>e_start = 4, e_end = 4, e_text = ''YZ''\<rparr>]
   \<and> apply_edits ''abcdef'' [\<lparr>e_start = 4, e_end = 4, e_text = ''YZ''\<rparr>, \<lparr>e_start = 1, e_end = 2, e_text = ''X''\<rparr>]
       = apply_edits ''abcdef'' [\<lparr>e_start = 1, e_end = 2, e_text = ''X''\<rparr>, \<lparr>e_start = 4, e_end = 4, e_text = ''YZ''\<rparr>]
   \<and> apply_edits ''abcdef'' [\<lparr>e_start = 1, e_end = 2, e_text = ''X''\<rparr>, \<lparr>e_start = 4, e_end = 4, e_text = ''YZ''\<rparr>]
       = ''aXcdYZef''"
proof -
  let ?a = "\<lparr>e_start = 1, e_end = 2, e_text = ''X''\<rparr>"
  let ?b = "\<lparr>e_start = 4, e_end = 4, e_text = ''YZ''\<rparr>"
  have h1: "non_overlapping [?a, ?b]" by (simp add: disjoint_edits_def)
  have h2: "distinct (map e_start [?a, ?b])" by simp
  have h3: "list_all (well_formed_edit ''abcdef'') [?a, ?b]" by (simp add: well_formed_edit_def)
  have h4: "mset [?b, ?a] = mset [?a, ?b]" by simp
  have v: "apply_edits ''abcdef'' [?a, ?b] = ''aXcdYZef''"
    by (simp add: apply_edits_def sort_edits_def splice_def)
  show ?thesis
    using apply_edits_order_independent[OF h1 h2 h3 h4] h1 h2 h3 v by simp
qed

subsection \<open>Overlapping edits (claim C2)\<close>

text \<open>
  Claim C2, as stated, fails: \<open>apply_edits\<close> has no check and no error path. Given the
  overlapping edits \<open>[0, 4) \<mapsto> X\<close> and \<open>[2, 6) \<mapsto> Y\<close> on \<open>abcdef\<close> it returns the
  buffer \<open>X\<close>.
\<close>

theorem apply_edits_overlap_counterexample:
  "overlapping_edits \<lparr>e_start = 0, e_end = 4, e_text = ''X''\<rparr> \<lparr>e_start = 2, e_end = 6, e_text = ''Y''\<rparr>
   \<and> \<not> non_overlapping [\<lparr>e_start = 0, e_end = 4, e_text = ''X''\<rparr>, \<lparr>e_start = 2, e_end = 6, e_text = ''Y''\<rparr>]
   \<and> apply_edits ''abcdef'' [\<lparr>e_start = 0, e_end = 4, e_text = ''X''\<rparr>, \<lparr>e_start = 2, e_end = 6, e_text = ''Y''\<rparr>]
       = ''X''"
  by (simp add: apply_edits_def sort_edits_def splice_def overlapping_edits_def
      disjoint_edits_def)

text \<open>
  Claim C2, amended: \<open>apply_edits\<close> does not detect overlapping edits; non-overlap is a
  precondition its caller must establish. Given two edits whose spans overlap, in either
  list order, it returns a buffer: the edit with the larger start offset (for equal
  start offsets, the edit that comes first in the list) is spliced into the original
  text, and the other edit is then spliced, at its original offsets, into that already
  modified text.
\<close>

theorem apply_edits_overlap_not_detected:
  assumes "overlapping_edits a b"
  shows "apply_edits t [a, b] =
           (if e_start a < e_start b then splice (splice t b) a else splice (splice t a) b)
       \<and> apply_edits t [b, a] =
           (if e_start b < e_start a then splice (splice t a) b else splice (splice t b) a)"
  by (simp add: apply_edits_def sort_edits_def)

theorem apply_edits_overlap_not_detected_witness:
  "overlapping_edits \<lparr>e_start = 0, e_end = 4, e_text = ''X''\<rparr> \<lparr>e_start = 2, e_end = 6, e_text = ''Y''\<rparr>
   \<and> apply_edits ''abcdefgh'' [\<lparr>e_start = 0, e_end = 4, e_text = ''X''\<rparr>, \<lparr>e_start = 2, e_end = 6, e_text = ''Y''\<rparr>]
       = ''Xh''
   \<and> apply_edits ''abcdefgh'' [\<lparr>e_start = 2, e_end = 6, e_text = ''Y''\<rparr>, \<lparr>e_start = 0, e_end = 4, e_text = ''X''\<rparr>]
       = ''Xh''"
proof -
  let ?a = "\<lparr>e_start = 0, e_end = 4, e_text = ''X''\<rparr>"
  let ?b = "\<lparr>e_start = 2, e_end = 6, e_text = ''Y''\<rparr>"
  have h1: "overlapping_edits ?a ?b" by (simp add: overlapping_edits_def)
  have v: "splice (splice ''abcdefgh'' ?b) ?a = ''Xh''" by (simp add: splice_def)
  show ?thesis
    using apply_edits_overlap_not_detected[OF h1, of "''abcdefgh''"] h1 v by simp
qed
section \<open>Properties of the scanner\<close>

subsection \<open>Auxiliary facts\<close>

lemma pop_snoc: "pop (xs @ [x]) = (Some x, xs)"
  by (simp add: pop_def)

lemma all_space_trim: "list_all is_space s \<Longrightarrow> trim s = []"
proof -
  assume "list_all is_space s"
  then have h: "dropWhile is_space s = []" by (induction s) auto
  show ?thesis unfolding trim_def h by simp
qed

lemma blank_tags_has: "blank_tags t \<Longrightarrow> hasRequiredTag fc t"
  by (auto simp: blank_tags_def hasRequiredTag_def all_space_trim Let_def split: option.splits)

lemma accepted_in_turn_append:
  "accepted_in_turn base (xs @ ys) = (accepted_in_turn base xs \<and> accepted_in_turn (base @ xs) ys)"
  by (induction xs arbitrary: base) auto

lemma grows_refl: "grows st st"
  by (simp add: grows_def)

lemma grows_trans: "grows a b \<Longrightarrow> grows b c \<Longrightarrow> grows a c"
  unfolding grows_def by (auto simp: accepted_in_turn_append)

lemma grows_same: "ignore_spans b = ignore_spans a \<Longrightarrow> grows a b"
  by (simp add: grows_def)

lemma search_match_span:
  "ignore_spans (search_match k d sid st m) = ignore_spans st
   \<or> (\<not> contained_in (span_of m) (ignore_spans st)
      \<and> ignore_spans (search_match k d sid st m) = ignore_spans st @ [span_of m])"
  by (auto simp: search_match_def Let_def pop_snoc record_id_span_def split: option.splits)

lemma search_match_accepts:
  assumes "sync_lists (search_match k d sid st m) \<noteq> sync_lists st"
  shows "\<not> contained_in (span_of m) (ignore_spans st)
       \<and> ignore_spans (search_match k d sid st m) = ignore_spans st @ [span_of m]"
proof (cases "contained_in (span_of m) (ignore_spans st)")
  case True
  then show ?thesis using assms by (simp add: search_match_def)
next
  case False
  then show ?thesis using assms
    by (auto simp: search_match_def Let_def pop_snoc record_id_span_def sync_lists_def
        split: option.splits if_splits)
qed

lemma grows_search_match: "grows st (search_match k d sid st m)"
  using search_match_span[of k d sid st m] by (auto simp: grows_def)

lemma grows_foldl:
  assumes "\<And>s x. grows s (f s x)"
  shows "grows st (foldl f st xs)"
proof (induction xs arbitrary: st)
  case Nil
  show ?case by (simp add: grows_refl)
next
  case (Cons x xs)
  show ?case using grows_trans[OF assms[of st x] Cons.IH[of "f st x"]] by simp
qed

lemma grows_search: "grows st (search k d ms st)"
  unfolding search_def
  by (rule grows_foldl) (auto simp: search_variant_def intro!: grows_foldl grows_search_match)

lemma grows_scan_note_type: "grows st (scan_note_type k d fc inp st nt)"
  by (auto simp: scan_note_type_def Let_def grows_refl grows_search split: option.splits)

lemma grows_scan_custom: "grows st (scan_custom k d fc inp st)"
  unfolding scan_custom_def by (rule grows_foldl) (rule grows_scan_note_type)

lemma ignore_scanNotes_match: "ignore_spans (scanNotes_match k d st m) = ignore_spans st"
  by (auto simp: scanNotes_match_def Let_def record_id_span_def split: option.splits)

lemma ignore_scanInlineNotes_match: "ignore_spans (scanInlineNotes_match k d st m) = ignore_spans st"
  by (auto simp: scanInlineNotes_match_def Let_def record_id_span_def split: option.splits)

lemma ignore_scanNotes: "ignore_spans (scanNotes k d ms st) = ignore_spans st"
  unfolding scanNotes_def by (induction ms arbitrary: st) (simp_all add: ignore_scanNotes_match)

lemma ignore_scanInlineNotes: "ignore_spans (scanInlineNotes k d ms st) = ignore_spans st"
  unfolding scanInlineNotes_def
  by (induction ms arbitrary: st) (simp_all add: ignore_scanInlineNotes_match)

lemma promote_single_frame:
  "ignore_spans (promote_single d st) = ignore_spans st"
  "file_text (promote_single d st) = file_text st"
  "frontmatterID (promote_single d st) = frontmatterID st"
  "useFrontmatterID (promote_single d st) = useFrontmatterID st"
  by (auto simp: promote_single_def pop_def split: option.splits list.splits)

lemma fallback_inline_frame:
  "ignore_spans (fallback_inline d st) = ignore_spans st"
  "file_text (fallback_inline d st) = file_text st"
  "frontmatterID (fallback_inline d st) = frontmatterID st"
  "useFrontmatterID (fallback_inline d st) = useFrontmatterID st"
  by (auto simp: fallback_inline_def shift_def split: option.splits list.splits)

lemma postProcess_frame:
  "ignore_spans (postProcessFrontmatterID d st) = ignore_spans st"
  "file_text (postProcessFrontmatterID d st) = file_text st"
  "frontmatterID (postProcessFrontmatterID d st) = frontmatterID st"
  by (simp_all add: postProcessFrontmatterID_def Let_def promote_single_frame
      fallback_inline_frame)

lemma postProcess_flag:
  "useFrontmatterID (postProcessFrontmatterID d st) = (saveIDToFrontmatter d \<and> totalNotes st = 1)"
  by (simp add: postProcessFrontmatterID_def Let_def promote_single_frame
      fallback_inline_frame totalNotes_def)

lemma postProcess_fallback:
  "\<not> (saveIDToFrontmatter d \<and> totalNotes st = 1) \<Longrightarrow>
   postProcessFrontmatterID d st = fallback_inline d (st\<lparr>useFrontmatterID := False\<rparr>)"
  by (auto simp: postProcessFrontmatterID_def Let_def totalNotes_def)

lemma postProcess_promote:
  "saveIDToFrontmatter d \<Longrightarrow> totalNotes st = 1 \<Longrightarrow>
   postProcessFrontmatterID d st = promote_single d (st\<lparr>useFrontmatterID := True\<rparr>)"
  by (simp add: postProcessFrontmatterID_def Let_def totalNotes_def)

lemma ignore_scanFile:
  "ignore_spans (scanFile k d fc inp st) =
     ignore_spans (scan_custom k d fc inp
       (scanInlineNotes k d (in_inline inp) (scanNotes k d (in_notes inp) (setupScan d fc inp st))))"
  by (simp add: scanFile_def Let_def postProcess_frame scanDeletions_def)

lemma grows_scanFile:
  "\<exists>acc. ignore_spans (scanFile k d fc inp st) = in_ignore inp @ acc
         \<and> accepted_in_turn (in_ignore inp) acc"
proof -
  let ?s3 = "scanInlineNotes k d (in_inline inp) (scanNotes k d (in_notes inp) (setupScan d fc inp st))"
  have "ignore_spans ?s3 = in_ignore inp"
    by (simp add: ignore_scanInlineNotes ignore_scanNotes setupScan_def)
  then show ?thesis
    using grows_scan_custom[of ?s3 k d fc inp] by (simp add: grows_def ignore_scanFile)
qed

subsection \<open>Accepted spans (claim C3)\<close>

text \<open>
  Claim C3, as stated, fails: \<open>contained_in\<close> rejects a match only when an earlier span
  contains it. In the document \<open>ex_qa_text\<close> with two custom note types, the first
  matching the question line \<open>[0, 4)\<close> and the second the question and the answer
  \<open>[0, 9)\<close>, both matches are accepted and both notes are added, and the two accepted
  spans share four characters.
\<close>

theorem accepted_spans_overlap_counterexample:
  "ignore_spans (scanFile ex_sentinels ex_two_patterns ex_cache ex_input (new_AllFile ex_qa_text))
     = [(0, 4), (0, 9)]
   \<and> regex_notes_to_add (scanFile ex_sentinels ex_two_patterns ex_cache ex_input
        (new_AllFile ex_qa_text)) = [ex_new_note, ex_new_note]
   \<and> regex_id_indexes (scanFile ex_sentinels ex_two_patterns ex_cache ex_input
        (new_AllFile ex_qa_text)) = [4, 9]
   \<and> shared_length (0, 4) (0, 9) = 4
   \<and> \<not> pairwise_apart [(0, 4), (0, 9)]"
  by code_simp

text \<open>
  Claim C3, amended: a custom-regex match is accepted (it contributes a note to add or
  to edit) only if its span \<open>[start, start + length)\<close> is not contained, with one
  character of leeway on each side, in any span already in \<open>ignore_spans\<close>, and its span
  is appended to \<open>ignore_spans\<close> at once, before any later match is tested. Hence, for
  every document, after \<open>scanFile\<close> the list \<open>ignore_spans\<close> is the list built by
  \<open>add_spans_to_ignore\<close> followed by the accepted spans in the order of acceptance, and
  none of these is contained, with that leeway, in the spans in front of it. Accepted
  spans may still overlap in part, and a later accepted span may contain an earlier one.
\<close>

theorem accepted_spans_not_contained:
  "(sync_lists (search_match k d search_id st m) \<noteq> sync_lists st \<longrightarrow>
      \<not> contained_in (span_of m) (ignore_spans st)
      \<and> ignore_spans (search_match k d search_id st m) = ignore_spans st @ [span_of m])
   \<and> (\<exists>acc. ignore_spans (scanFile k d fc inp st0) = in_ignore inp @ acc
            \<and> accepted_in_turn (in_ignore inp) acc)"
  using search_match_accepts[of k d search_id st m] grows_scanFile[of k d fc inp st0]
  by blast

theorem accepted_spans_not_contained_witness:
  "sync_lists (search_match ex_sentinels ex_two_patterns False (new_AllFile ex_qa_text) (ex_match 0 4 None))
     \<noteq> sync_lists (new_AllFile ex_qa_text)
   \<and> \<not> contained_in (span_of (ex_match 0 4 None)) (ignore_spans (new_AllFile ex_qa_text))
   \<and> ignore_spans (search_match ex_sentinels ex_two_patterns False (new_AllFile ex_qa_text)
        (ex_match 0 4 None)) = [(0, 4)]
   \<and> accepted_in_turn [] (ignore_spans (scanFile ex_sentinels ex_two_patterns ex_cache ex_input
         (new_AllFile ex_qa_text)))"
proof -
  let ?st = "new_AllFile ex_qa_text"
  let ?m = "ex_match 0 4 None"
  have h: "sync_lists (search_match ex_sentinels ex_two_patterns False ?st ?m) \<noteq> sync_lists ?st"
    by code_simp
  have i: "in_ignore ex_input = []" "ignore_spans ?st @ [span_of ?m] = [(0, 4)]"
    by (simp_all add: ex_input_def new_AllFile_def span_of_def ex_match_def)
  show ?thesis
    using accepted_spans_not_contained[of ex_sentinels ex_two_patterns False ?st ?m
        ex_cache ex_input ?st] h i
    by simp
qed

subsection \<open>Notes with an unknown identifier (claim C4)\<close>

text \<open>
  Claim C4: a scanned note (block, inline, or custom-regex) whose parsed identifier is a
  number that is not in \<open>EXISTING_IDS\<close> and is neither sentinel is reported on the
  console and left out of the sync plan: the lists of notes to add, their positions and
  the notes to edit are as before. A custom-regex note has a parsed identifier in the
  variants of its pattern with the identifier suffix (\<^verbatim>\<open>search_id\<close>), where
  \<^verbatim>\<open>search\<close> looks the identifier up; the variants without the suffix capture none.
\<close>

theorem unknown_identifier_left_untouched:
  assumes "s_identifier m = Some i" and "i \<notin> set (EXISTING_IDS d)"
      and "i \<noteq> CLOZE_ERROR k" and "i \<noteq> NOTE_TYPE_ERROR k"
  shows "sync_lists (scanNotes_match k d st m) = sync_lists st
       \<and> console (scanNotes_match k d st m) = console st @ [UnknownIdentifier (Some i)]
       \<and> sync_lists (scanInlineNotes_match k d st m) = sync_lists st
       \<and> console (scanInlineNotes_match k d st m) = console st @ [UnknownIdentifier (Some i)]
       \<and> sync_lists (search_match k d True st m) = sync_lists st
       \<and> console (search_match k d True st m) =
           (if contained_in (span_of m) (ignore_spans st) then console st
            else console st @ [UnknownIdentifier (Some i)])"
proof -
  have a: "sync_lists (scanNotes_match k d st m) = sync_lists st"
          "console (scanNotes_match k d st m) = console st @ [UnknownIdentifier (Some i)]"
    using assms by (simp_all add: scanNotes_match_def Let_def sync_lists_def
        record_id_span_def split: option.splits)
  have b: "sync_lists (scanInlineNotes_match k d st m) = sync_lists st"
          "console (scanInlineNotes_match k d st m) = console st @ [UnknownIdentifier (Some i)]"
    using assms by (simp_all add: scanInlineNotes_match_def Let_def sync_lists_def
        record_id_span_def split: option.splits)
  have c: "sync_lists (search_match k d True st m) = sync_lists st"
          "console (search_match k d True st m) =
           (if contained_in (span_of m) (ignore_spans st) then console st
            else console st @ [UnknownIdentifier (Some i)])"
    using assms by (simp_all add: search_match_def Let_def sync_lists_def
        record_id_span_def split: option.splits)
  show ?thesis using a b c by simp
qed

text \<open>
  Scenario B of the specification: the document \<open>ex_known_text\<close>, one block note with
  the identifier 12, which Anki does not know. The scan reports it and plans nothing.
\<close>

theorem unknown_identifier_left_untouched_witness:
  "sync_lists (scanNotes_match ex_sentinels (ex_data [] False) (new_AllFile ex_known_text)
       (ex_match 0 32 (Some 12)))
     = sync_lists (new_AllFile ex_known_text)
   \<and> console (scanNotes_match ex_sentinels (ex_data [] False) (new_AllFile ex_known_text)
       (ex_match 0 32 (Some 12)))
     = [UnknownIdentifier (Some 12)]
   \<and> sync_lists (scanFile ex_sentinels (ex_data [] False) ex_cache
         (ex_input\<lparr>in_ignore := [(0, 32)], in_notes := [ex_match 0 32 (Some 12)]\<rparr>)
         (new_AllFile ex_known_text))
     = (([], []), ([], []), ([], []), [])
   \<and> console (scanFile ex_sentinels (ex_data [] False) ex_cache
         (ex_input\<lparr>in_ignore := [(0, 32)], in_notes := [ex_match 0 32 (Some 12)]\<rparr>)
         (new_AllFile ex_known_text))
     = [UnknownIdentifier (Some 12)]"
proof -
  let ?m = "ex_match 0 32 (Some 12)"
  have h: "s_identifier ?m = Some 12" "12 \<notin> set (EXISTING_IDS (ex_data [] False))"
    "12 \<noteq> CLOZE_ERROR ex_sentinels" "12 \<noteq> NOTE_TYPE_ERROR ex_sentinels"
    by (simp_all add: ex_match_def ex_data_def ex_sentinels_def)
  have c: "console (new_AllFile ex_known_text) = []" by (simp add: new_AllFile_def)
  have v: "sync_lists (scanFile ex_sentinels (ex_data [] False) ex_cache
         (ex_input\<lparr>in_ignore := [(0, 32)], in_notes := [ex_match 0 32 (Some 12)]\<rparr>)
         (new_AllFile ex_known_text))
     = (([], []), ([], []), ([], []), [])"
    "console (scanFile ex_sentinels (ex_data [] False) ex_cache
         (ex_input\<lparr>in_ignore := [(0, 32)], in_notes := [ex_match 0 32 (Some 12)]\<rparr>)
         (new_AllFile ex_known_text))
     = [UnknownIdentifier (Some 12)]"
    by code_simp+
  show ?thesis
    using unknown_identifier_left_untouched[OF h, of "new_AllFile ex_known_text"] c v by simp
qed

subsection \<open>Promotion of the single new note (claim C5)\<close>

text \<open>
  Claim C5, as stated, fails for the identifier 0: the code takes a front-matter
  identifier as present by \<^verbatim>\<open>if (this.frontmatterID)\<close>, which the number 0 does not
  pass. In the note file with the front-matter value \<^verbatim>\<open>"0"\<close> and one new block note,
  with 0 among the known identifiers, the note stays in \<open>notes_to_add\<close> and its position
  in \<open>id_indexes\<close>; only \<open>useFrontmatterID\<close> is set.
\<close>

theorem frontmatter_id_zero_counterexample:
  "saveIDToFrontmatter (ex_data [0] True)
   \<and> totalNotes ex_single_zero = 1
   \<and> notes_to_add ex_single_zero = [ex_new_note]
   \<and> frontmatterID ex_single_zero = Some 0
   \<and> 0 \<in> set (EXISTING_IDS (ex_data [0] True))
   \<and> postProcessFrontmatterID (ex_data [0] True) ex_single_zero
       = ex_single_zero\<lparr>useFrontmatterID := True\<rparr>
   \<and> notes_to_add (postProcessFrontmatterID (ex_data [0] True) ex_single_zero) = [ex_new_note]
   \<and> id_indexes (postProcessFrontmatterID (ex_data [0] True) ex_single_zero) = [48]
   \<and> notes_to_edit (postProcessFrontmatterID (ex_data [0] True) ex_single_zero) = []
   \<and> ex_zero_scan = postProcessFrontmatterID (ex_data [0] True) ex_single_zero"
  by code_simp

text \<open>
  Claim C5, amended: if \<open>saveIDToFrontmatter\<close> is set, the document has exactly one note
  in total over the four lists, that note is in \<open>notes_to_add\<close>, and the document's
  front-matter identifier is not 0 (the code takes it as present:
  \<^verbatim>\<open>if (this.frontmatterID)\<close>) and is in \<open>EXISTING_IDS\<close>, then
  \<open>postProcessFrontmatterID\<close> moves the note from \<open>notes_to_add\<close> to \<open>notes_to_edit\<close>
  under the front-matter identifier and pops its position off \<open>id_indexes\<close>; nothing
  else changes but \<open>useFrontmatterID\<close>, which is set.
\<close>

theorem frontmatter_id_promotes_single_new_note:
  assumes "saveIDToFrontmatter d" and "totalNotes st = 1" and "notes_to_add st = [note]"
      and "frontmatterID st = Some fid" and "truthy (frontmatterID st)"
      and "fid \<in> set (EXISTING_IDS d)"
  shows "postProcessFrontmatterID d st =
           st\<lparr>useFrontmatterID := True, notes_to_add := [],
              id_indexes := butlast (id_indexes st), notes_to_edit := [(note, fid)]\<rparr>
       \<and> (id_indexes st = [position] \<longrightarrow> id_indexes (postProcessFrontmatterID d st) = [])"
  using assms
  by (simp add: postProcess_promote promote_single_def pop_def truthy_def totalNotes_def)

text \<open>
  The note file whose front matter holds the identifier 12, which Anki knows, and one
  block note without an identifier: the note is edited under 12, and this is what the
  whole scan of the file gives.
\<close>

theorem frontmatter_id_promotes_single_new_note_witness:
  "totalNotes ex_single_new = 1
   \<and> postProcessFrontmatterID (ex_data [12] True) ex_single_new
       = ex_single_new\<lparr>useFrontmatterID := True, notes_to_add := [], id_indexes := [],
           notes_to_edit := [(ex_new_note, 12)]\<rparr>
   \<and> ex_frontmatter_scan = postProcessFrontmatterID (ex_data [12] True) ex_single_new"
proof -
  have h: "saveIDToFrontmatter (ex_data [12] True)" "totalNotes ex_single_new = 1"
    "notes_to_add ex_single_new = [ex_new_note]" "frontmatterID ex_single_new = Some 12"
    "truthy (frontmatterID ex_single_new)" "12 \<in> set (EXISTING_IDS (ex_data [12] True))"
    by (simp_all add: ex_data_def totalNotes_def new_AllFile_def truthy_def ex_single_new_def)
  have i: "id_indexes ex_single_new = [47]" by (simp add: ex_single_new_def)
  have s: "ex_frontmatter_scan = postProcessFrontmatterID (ex_data [12] True) ex_single_new"
    by code_simp
  show ?thesis
    using frontmatter_id_promotes_single_new_note[OF h, of 47] h(2) i s by simp
qed

subsection \<open>Matches that parse to the cloze error (claim C7)\<close>

text \<open>
  Claim C7, as stated, fails in the variants with the identifier suffix: the membership
  in \<open>EXISTING_IDS\<close> is tested before the sentinel. When the number that serves as
  \<open>CLOZE_ERROR\<close> is itself in \<open>EXISTING_IDS\<close>, the match is kept in \<open>ignore_spans\<close> and
  put on \<open>notes_to_edit\<close> under that number.
\<close>

theorem cloze_error_known_counterexample:
  "s_identifier ex_cloze_match = Some (CLOZE_ERROR ex_sentinels)
   \<and> ignore_spans (search_match ex_sentinels (ex_data [42] False) True
        (new_AllFile ex_cloze_text) ex_cloze_match) = [(0, 10)]
   \<and> notes_to_edit (search_match ex_sentinels (ex_data [42] False) True
        (new_AllFile ex_cloze_text) ex_cloze_match) = [(ex_note, 42)]
   \<and> search_match ex_sentinels (ex_data [42] False) True (new_AllFile ex_cloze_text) ex_cloze_match
       \<noteq> new_AllFile ex_cloze_text"
  by code_simp

text \<open>
  Claim C7, amended: for every custom-regex match whose parse result is the
  \<open>ClozeError\<close> sentinel (in a variant with the identifier suffix: provided the
  sentinel's number is not in \<open>EXISTING_IDS\<close>), the span that had just been added to
  \<open>ignore_spans\<close> is removed again and the match contributes nothing: the state after
  the match is the state before it, so a later pattern may still claim the same text.
\<close>

theorem cloze_error_match_retracted:
  assumes "s_identifier m = Some (CLOZE_ERROR k)"
      and "search_id \<longrightarrow> CLOZE_ERROR k \<notin> set (EXISTING_IDS d)"
  shows "search_match k d search_id st m = st"
  using assms by (cases search_id) (simp_all add: search_match_def Let_def pop_snoc)

theorem cloze_error_match_retracted_witness:
  "search_match ex_sentinels (ex_data [12] False) True (new_AllFile ex_cloze_text) ex_cloze_match
     = new_AllFile ex_cloze_text
   \<and> search_match ex_sentinels (ex_data [42] False) False (new_AllFile ex_cloze_text)
        ex_cloze_plain_match
     = new_AllFile ex_cloze_text"
  using cloze_error_match_retracted[of ex_cloze_match ex_sentinels True
          "ex_data [12] False" "new_AllFile ex_cloze_text"]
        cloze_error_match_retracted[of ex_cloze_plain_match ex_sentinels False
          "ex_data [42] False" "new_AllFile ex_cloze_text"]
  by (simp add: ex_cloze_match_def ex_cloze_plain_match_def ex_match_def ex_sentinels_def
      ex_data_def)

subsection \<open>Note types without required tags (claim C9)\<close>

text \<open>
  Claim C9: for a required-tags setting that is undefined, empty, white space only, or
  leaves no non-empty tag after splitting on commas and trimming, \<open>hasRequiredTag\<close>
  returns true whatever the document's tags are; so a custom note type with a pattern
  and such a setting is among the types the loop of \<open>scanFile\<close> goes through, and the
  loop body searches it on every document, also when \<open>regex_required_tags\<close> is set.
\<close>

theorem blank_required_tags_always_searched:
  assumes "blank_tags tags_str"
  shows "hasRequiredTag fc tags_str
       \<and> (map_of (custom_regexps d) note_type = Some regexp_str \<and> regexp_str \<noteq> []
            \<and> configured_tags d note_type = tags_str
          \<longrightarrow> note_type \<in> set (sorted_note_types d)
            \<and> scan_note_type k d fc inp st note_type
                = search k d (in_regex inp note_type regexp_str) st)"
proof -
  have "note_type \<in> set (sorted_note_types d)"
    if "map_of (custom_regexps d) note_type = Some regexp_str"
    using map_of_SomeD[OF that] by (force simp: sorted_note_types_def Let_def)
  then show ?thesis
    using assms blank_tags_has[of tags_str fc] by (simp add: scan_note_type_def Let_def)
qed

text \<open>
  The note type \<open>Question\<close> with the required-tags setting \<^verbatim>\<open>" , ,"\<close>, which names no
  tag, on a document without tags: the type is searched, and its note is found.
\<close>

theorem blank_required_tags_always_searched_witness:
  "blank_tags (Some '' , ,'')
   \<and> hasRequiredTag ex_cache (Some '' , ,'')
   \<and> scan_note_type ex_sentinels
        ((ex_data [] False)\<lparr>custom_regexps := [(''Question'', ex_question_pattern)],
                             regex_required_tags := True,
                             regexp_tags := Some [(''Question'', '' , ,'')]\<rparr>)
        ex_cache ex_input (new_AllFile ex_qa_text) ''Question''
      = search ex_sentinels
        ((ex_data [] False)\<lparr>custom_regexps := [(''Question'', ex_question_pattern)],
                             regex_required_tags := True,
                             regexp_tags := Some [(''Question'', '' , ,'')]\<rparr>)
        (in_regex ex_input ''Question'' ex_question_pattern) (new_AllFile ex_qa_text)
   \<and> regex_notes_to_add (scanFile ex_sentinels
        ((ex_data [] False)\<lparr>custom_regexps := [(''Question'', ex_question_pattern)],
                             regex_required_tags := True,
                             regexp_tags := Some [(''Question'', '' , ,'')]\<rparr>)
        ex_cache ex_input (new_AllFile ex_qa_text)) = [ex_new_note]"
proof -
  let ?d = "(ex_data [] False)\<lparr>custom_regexps := [(''Question'', ex_question_pattern)],
                             regex_required_tags := True,
                             regexp_tags := Some [(''Question'', '' , ,'')]\<rparr>"
  have h: "blank_tags (Some '' , ,'')" by code_simp
  have c: "map_of (custom_regexps ?d) ''Question'' = Some ex_question_pattern"
    "ex_question_pattern \<noteq> []" "configured_tags ?d ''Question'' = Some '' , ,''"
    by (simp_all add: ex_data_def configured_tags_def ex_question_pattern_def)
  have v: "regex_notes_to_add (scanFile ex_sentinels ?d ex_cache ex_input (new_AllFile ex_qa_text))
             = [ex_new_note]"
    by code_simp
  show ?thesis
    using blank_required_tags_always_searched[OF h, of ex_cache ?d "''Question''"
        ex_question_pattern ex_sentinels ex_input "new_AllFile ex_qa_text"] h c v
    by simp
qed
section \<open>Properties of the bulk delete\<close>

subsection \<open>Auxiliary facts\<close>

lemma digit_not_other:
  assumes "is_digit c"
  shows "\<not> is_space c" and "c \<noteq> CHR ''-''" and "c \<noteq> CHR ''+''"
    and "c \<noteq> CHR ''x''" and "c \<noteq> CHR ''X''"
  using assms by (auto simp: is_digit_def is_space_def)

text \<open>\<^verbatim>\<open>parseInt\<close> of a group \<^verbatim>\<open>(\d+)\<close> is its decimal value, never \<^verbatim>\<open>NaN\<close>.\<close>

lemma parseInt_digits:
  assumes "list_all is_digit ds" and "ds \<noteq> []"
  shows "parseInt ds = Some (int (number_of 10 ds))"
proof -
  obtain c cs where ds: "ds = c # cs" using assms(2) by (cases ds) auto
  have c: "is_digit c" using assms(1) ds by simp
  have tw: "takeWhile is_digit ds = ds" using assms(1) by (simp add: list_all_iff)
  have s1: "dropWhile is_space ds = ds" using ds digit_not_other(1)[OF c] by simp
  have sg: "\<not> starts_with ''-'' ds" "\<not> starts_with ''+'' ds"
    using ds digit_not_other[OF c] by (simp_all add: starts_with_def)
  have nx: "\<not> starts_with ''0x'' ds" "\<not> starts_with ''0X'' ds"
    using assms(1) ds by (cases cs; auto simp: starts_with_def dest: digit_not_other)+
  show ?thesis
    unfolding parseInt_def Let_def s1 using sg nx assms(2) by (simp add: tw)
qed

lemma nid_value_at_digits:
  "nid_value_at s = Some ds \<Longrightarrow> list_all is_digit ds \<and> ds \<noteq> []"
  by (auto simp: nid_value_at_def Let_def list_all_iff split: if_splits dest: set_takeWhileD)

lemma nid_value_scan_digits:
  "nid_value_scan bol s = Some ds \<Longrightarrow> list_all is_digit ds \<and> ds \<noteq> []"
  by (induction bol s rule: nid_value_scan.induct)
     (auto split: option.splits if_splits dest: nid_value_at_digits)

lemma no_nid_line_no_value:
  "find_line ''nid:'' bol s = None \<Longrightarrow> nid_value_scan bol s = None"
  by (induction bol s rule: nid_value_scan.induct)
     (auto simp: nid_value_at_def split: option.splits if_splits)

lemma no_nid_property_no_id: "no_nid_property content \<Longrightarrow> bulk_frontmatterID content = None"
proof (cases "frontmatter_match content")
  case None
  then show ?thesis by (simp add: bulk_frontmatterID_def)
next
  case (Some r)
  assume n: "no_nid_property content"
  obtain frontmatter len where r: "r = (frontmatter, len)" by (cases r)
  have "find_line ''nid:'' True frontmatter = None"
    using n Some r
    by (cases "find_line ''nid:'' True frontmatter") (auto simp: no_nid_property_def has_nid_line_def)
  then have "nid_value_scan True frontmatter = None" by (rule no_nid_line_no_value)
  then show ?thesis using Some r by (simp add: bulk_frontmatterID_def)
qed

lemma bulk_frontmatterID_value:
  "bulk_frontmatterID content =
     (case frontmatter_match content of
        None \<Rightarrow> None
      | Some (frontmatter, len) \<Rightarrow>
          map_option (\<lambda>ds. int (number_of 10 ds)) (nid_value_scan True frontmatter))"
  by (auto simp: bulk_frontmatterID_def split: option.splits
      dest!: nid_value_scan_digits intro: parseInt_digits)

lemma inline_ids_digits:
  "list_all (\<lambda>m. list_all is_digit (im_group m) \<and> im_group m \<noteq> []) matches \<Longrightarrow>
   inline_ids matches = map (\<lambda>m. int (number_of 10 (im_group m))) matches"
  by (induction matches) (auto simp: inline_ids_def List.map_filter_simps parseInt_digits)

lemma set_bulk_ids:
  "set (bulk_ids content matches) = set (inline_ids matches) \<union> set_option (bulk_frontmatterID content)"
  by (auto simp: bulk_ids_def split: option.splits)

lemma invoke_in_effects:
  "Invoke_deleteNotes ids \<in> set (checkAndBulkDelete w name content matches) \<Longrightarrow>
   ids = bulk_ids content matches \<and> confirmed w \<and> bulk_ids content matches \<noteq> []"
  by (auto simp: checkAndBulkDelete_def Let_def split: if_splits anki_answer.splits option.splits)

lemma modify_in_effects:
  "Vault_modify c \<in> set (checkAndBulkDelete w name content matches) \<Longrightarrow>
   Invoke_deleteNotes (bulk_ids content matches) \<in> set (checkAndBulkDelete w name content matches)"
  by (auto simp: checkAndBulkDelete_def Let_def split: if_splits anki_answer.splits option.splits)

subsection \<open>The identifiers submitted for deletion (claim C10)\<close>

text \<open>
  Claim C10: if the content has no match of the identifier pattern and no front-matter
  \<open>nid\<close> property, \<open>checkAndBulkDelete\<close> only shows a notice: it sends no deletion
  request and does not modify the file. Otherwise, a deletion request it sends carries
  exactly the integers parsed from the groups of the matches, followed by the
  front-matter \<open>nid\<close> value when the front matter has one; the groups \<^verbatim>\<open>(\d+)\<close> parse
  to their decimal values; the file is modified only after such a request; and the
  request is sent whenever there is an identifier and the user confirms.
\<close>

theorem bulk_delete_submits_found_ids:
  "(matches = [] \<and> no_nid_property content \<longrightarrow>
      checkAndBulkDelete w name content matches = [Notice ''No IDs found in this file.''])
   \<and> (Invoke_deleteNotes ids \<in> set (checkAndBulkDelete w name content matches) \<longrightarrow>
        ids = inline_ids matches @ (case bulk_frontmatterID content of None \<Rightarrow> [] | Some n \<Rightarrow> [n])
        \<and> set ids = set (inline_ids matches) \<union> set_option (bulk_frontmatterID content))
   \<and> (list_all (\<lambda>m. list_all is_digit (im_group m) \<and> im_group m \<noteq> []) matches \<longrightarrow>
        inline_ids matches = map (\<lambda>m. int (number_of 10 (im_group m))) matches)
   \<and> (Vault_modify c \<in> set (checkAndBulkDelete w name content matches) \<longrightarrow>
        Invoke_deleteNotes (bulk_ids content matches)
          \<in> set (checkAndBulkDelete w name content matches))
   \<and> (confirmed w \<and> bulk_ids content matches \<noteq> [] \<longrightarrow>
        Invoke_deleteNotes (bulk_ids content matches)
          \<in> set (checkAndBulkDelete w name content matches))"
proof -
  have s: "Invoke_deleteNotes (bulk_ids content matches)
          \<in> set (checkAndBulkDelete w name content matches)"
    if "confirmed w" "bulk_ids content matches \<noteq> []"
    using that by (simp add: checkAndBulkDelete_def Let_def)
  have a: "checkAndBulkDelete w name content matches = [Notice ''No IDs found in this file.'']"
    if "matches = []" "no_nid_property content"
    using that no_nid_property_no_id[of content]
    by (simp add: checkAndBulkDelete_def bulk_ids_def inline_ids_def List.map_filter_simps)
  have b: "ids = inline_ids matches @ (case bulk_frontmatterID content of None \<Rightarrow> [] | Some n \<Rightarrow> [n])
        \<and> set ids = set (inline_ids matches) \<union> set_option (bulk_frontmatterID content)"
    if "Invoke_deleteNotes ids \<in> set (checkAndBulkDelete w name content matches)"
    using invoke_in_effects[OF that] set_bulk_ids[of content matches]
    by (simp add: bulk_ids_def)
  show ?thesis
    using a b s inline_ids_digits[of matches] modify_in_effects[of c w name content matches]
    by blast
qed

theorem bulk_delete_submits_found_ids_witness:
  "no_nid_property ''plain text''
   \<and> checkAndBulkDelete ex_world ''n.md'' ''plain text'' [] = [Notice ''No IDs found in this file.'']
   \<and> Invoke_deleteNotes [12, 7] \<in> set (checkAndBulkDelete ex_world ''n.md'' ex_content [ex_id_match])
   \<and> inline_ids [ex_id_match] = [12]
   \<and> bulk_frontmatterID ex_content = Some 7
   \<and> Vault_modify (''---'' @ [LF, LF] @ ''---'' @ [LF] @ ''Q'' @ [LF])
        \<in> set (checkAndBulkDelete ex_world ''n.md'' ex_content [ex_id_match])"
proof -
  have h1: "no_nid_property ''plain text''" by code_simp
  have h2: "Invoke_deleteNotes [12, 7] \<in> set (checkAndBulkDelete ex_world ''n.md'' ex_content [ex_id_match])"
    by code_simp
  have h3: "list_all (\<lambda>m. list_all is_digit (im_group m) \<and> im_group m \<noteq> []) [ex_id_match]"
    by code_simp
  have h4: "Vault_modify (''---'' @ [LF, LF] @ ''---'' @ [LF] @ ''Q'' @ [LF])
        \<in> set (checkAndBulkDelete ex_world ''n.md'' ex_content [ex_id_match])"
    by code_simp
  have v: "inline_ids [ex_id_match] = [12]" "bulk_frontmatterID ex_content = Some 7"
    by code_simp+
  show ?thesis
    using bulk_delete_submits_found_ids[of "[]" "''plain text''" ex_world "''n.md''" "[]" "[]"]
      bulk_delete_submits_found_ids[of "[ex_id_match]" ex_content ex_world "''n.md''" "[12, 7]"
        "''---'' @ [LF, LF] @ ''---'' @ [LF] @ ''Q'' @ [LF]"]
      h1 h2 h3 h4 v
    by simp
qed

section \<open>Properties of the write pass\<close>

subsection \<open>The regular expressions\<close>

lemma starts_with_append_LF:
  assumes "LF \<notin> set key"
  shows "starts_with key (a @ LF # b) = starts_with key a"
proof (cases "length key \<le> length a")
  case True
  then show ?thesis by (simp add: starts_with_def)
next
  case False
  then have l: "length a < length key" by simp
  have "\<not> starts_with key a"
  proof
    assume "starts_with key a"
    then have "length (take (length key) a) = length key" by (simp add: starts_with_def)
    then show False using l by simp
  qed
  moreover have "\<not> starts_with key (a @ LF # b)"
  proof
    assume "starts_with key (a @ LF # b)"
    then have e: "take (length key) (a @ LF # b) = key" by (simp add: starts_with_def)
    have m: "LF \<in> set (take (length key) (a @ LF # b))"
      using l by (simp add: take_Cons')
    show False using assms m unfolding e by blast
  qed
  ultimately show ?thesis by simp
qed

lemma find_sub_None_drop:
  "find_sub key s = None \<Longrightarrow> \<not> starts_with key (drop i s)"
proof (induction s arbitrary: i)
  case Nil
  then show ?case by (auto simp: starts_with_def split: if_splits)
next
  case (Cons c cs)
  then show ?case by (cases i) (auto split: if_splits)
qed


lemma find_sub_None_find_line:
  "key \<noteq> [] \<Longrightarrow> find_sub key s = None \<Longrightarrow> find_line key bol s = None"
  by (induction s arbitrary: bol) (auto split: if_splits)

lemma find_line_after_LF:
  assumes "key \<noteq> []"
  shows "find_line key bol (a @ LF # key @ b) \<noteq> None"
proof (induction a arbitrary: bol)
  case Nil
  obtain k ks where key: "key = k # ks" using assms by (cases key) auto
  have "find_line key True (key @ b) \<noteq> None"
    by (simp add: key starts_with_def)
  then show ?case by (auto simp: is_line_terminator_def)
next
  case (Cons c p)
  obtain r where "find_line key (is_line_terminator c) (p @ LF # key @ b) = Some r"
    using Cons.IH[of "is_line_terminator c"] by auto
  then show ?case by (cases r) auto
qed

lemma nid_on_last_line_append:
  "LF \<notin> set w \<Longrightarrow> nid_on_last_line (a @ ''nid:'' @ w)"
  by (induction a) (auto simp: starts_with_def)

lemma trim_nid_last:
  "trim (pre @ LF # ''nid:'' @ v) =
     dropWhile is_space (pre @ [LF]) @ ''nid:'' @ rev (dropWhile is_space (rev v))"
proof -
  have n: "\<not> is_space (CHR ''n'')" and c: "\<not> is_space (CHR '':'')"
    by (simp_all add: is_space_def)
  have 1: "dropWhile is_space (pre @ LF # ''nid:'' @ v)
           = dropWhile is_space (pre @ [LF]) @ ''nid:'' @ v"
    using dropWhile_append3[where P = is_space and y = "CHR ''n''" and xs = "pre @ [LF]"
        and ys = "''id:'' @ v"] n by simp
  have 2: "dropWhile is_space (rev v @ CHR '':'' # ''din'' @ rev (dropWhile is_space (pre @ [LF])))
           = dropWhile is_space (rev v) @ CHR '':'' # ''din'' @ rev (dropWhile is_space (pre @ [LF]))"
    using dropWhile_append3[where P = is_space and y = "CHR '':''" and xs = "rev v"
        and ys = "''din'' @ rev (dropWhile is_space (pre @ [LF]))"] c by simp
  show ?thesis unfolding trim_def 1 using 2 by simp
qed

text \<open>
  A front matter whose last line is the \<open>nid\<close> line, behind text \<open>pre\<close> that does not
  mention \<^verbatim>\<open>nid:\<close> and does not end in white space: the removal cuts the line and the
  line feed in front of it.
\<close>

lemma strip_nid_tail_last:
  assumes "find_sub ''nid:'' pre = None" and "pre = [] \<or> \<not> is_space (last pre)"
      and "LF \<notin> set v"
  shows "strip_nid_tail (pre @ LF # ''nid:'' @ v) = pre"
  using assms(1,2)
proof (induction pre)
  case Nil
  have dw: "dropWhile (\<lambda>c. c \<noteq> LF) v = []" using assms(3) by (induction v) auto
  have "nid_to_end (''nid:'' @ v)"
    unfolding nid_to_end_def by (simp add: starts_with_def dw)
  then have "nid_tail_at (LF # ''nid:'' @ v)"
    by (simp add: nid_tail_at_def is_space_def)
  then show ?case by simp
next
  case (Cons c p)
  let ?r = "LF # ''nid:'' @ v"
  have fs: "find_sub ''nid:'' p = None" and nc: "\<not> starts_with ''nid:'' (c # p)"
    using Cons.prems(1) by (auto split: if_splits)
  have sp: "p = [] \<or> \<not> is_space (last p)" using Cons.prems(2) by (auto split: if_splits)
  have n1: "\<not> nid_to_end ((c # p) @ ?r)"
    using nc starts_with_append_LF[of "''nid:''" "c # p" "''nid:'' @ v"]
    by (simp add: nid_to_end_def)
  have n2: "\<not> nid_to_end (dropWhile is_space (p @ ?r))" if "c = LF"
  proof (cases "list_all is_space p")
    case True
    then have "is_space (last (c # p))" using that
      by (cases "p = []") (auto simp: is_space_def list_all_iff)
    then show ?thesis using Cons.prems(2) by simp
  next
    case False
    then have "dropWhile is_space p \<noteq> []" by (simp add: list_all_iff)
    then have "dropWhile is_space (p @ ?r) = dropWhile is_space p @ ?r"
      by (metis dropWhile_append1 dropWhile_eq_Nil_conv)
    moreover have "\<not> starts_with ''nid:'' (dropWhile is_space p)"
      using find_sub_None_drop[OF fs, of "length (takeWhile is_space p)"]
      by (simp add: dropWhile_eq_drop)
    ultimately show ?thesis
      using starts_with_append_LF[of "''nid:''" "dropWhile is_space p" "''nid:'' @ v"]
      by (simp add: nid_to_end_def)
  qed
  have "\<not> nid_tail_at ((c # p) @ ?r)"
    using n1 n2 by (auto simp: nid_tail_at_def)
  then show ?case using Cons.IH[OF fs sp] by simp
qed

lemma nid_last_line_facts:
  assumes "find_sub ''nid:'' pre = None" and "pre = [] \<or> \<not> is_space (last pre)"
      and "LF \<notin> set v"
  shows "has_nid_line (pre @ LF # ''nid:'' @ v)"
    and "nid_on_last_line (trim (pre @ LF # ''nid:'' @ v))"
    and "strip_nid_tail (pre @ LF # ''nid:'' @ v) = pre"
    and "\<not> has_nid_line pre"
proof -
  show "has_nid_line (pre @ LF # ''nid:'' @ v)"
    using find_line_after_LF[of "''nid:''" True pre v] by (simp add: has_nid_line_def)
  have "LF \<notin> set (rev (dropWhile is_space (rev v)))"
    using assms(3) by (auto dest: set_dropWhileD)
  then show "nid_on_last_line (trim (pre @ LF # ''nid:'' @ v))"
    unfolding trim_nid_last by (rule nid_on_last_line_append)
  show "strip_nid_tail (pre @ LF # ''nid:'' @ v) = pre"
    using assms by (rule strip_nid_tail_last)
  show "\<not> has_nid_line pre"
    using find_sub_None_find_line[OF _ assms(1), of True] by (simp add: has_nid_line_def)
qed





subsection \<open>What a scan keeps\<close>













subsection \<open>Auxiliary facts on the edits of the write pass\<close>

lemma removal_edits_head:
  assumes "truthy (frontmatterID st)" and "frontmatter_match (file_text st) = Some (fm, len)"
      and "has_nid_line fm"
  shows "frontmatter_removal_edits st =
           [\<lparr>e_start = 0, e_end = len,
             e_text = ''---'' @ [LF] @ (if nid_on_last_line (trim fm) then strip_nid_tail fm
                                        else clear_nid_value fm) @ [LF] @ ''---''\<rparr>]"
  using assms by (simp add: frontmatter_removal_edits_def Let_def)

lemma removal_edits_note_ids:
  "frontmatter_removal_edits (st\<lparr>note_ids := ids\<rparr>) = frontmatter_removal_edits st"
  by (simp add: frontmatter_removal_edits_def)

subsection \<open>The fallback to inline identifiers (claim C6)\<close>

text \<open>
  Claim C6, as stated, fails: the fallback looks for the note that owns the front-matter
  identifier in \<open>notes_to_add\<close> only, the new block notes. In a document with the known
  front-matter identifier 12 and two new inline notes, no note is moved to
  \<open>notes_to_edit\<close> and no inline insertion of 12 is scheduled; the write pass still takes
  \<open>nid\<close> out of the front matter and gives the two notes their new identifiers.
\<close>

theorem frontmatter_fallback_inline_counterexample:
  "saveIDToFrontmatter (ex_data [12] True)
   \<and> 1 < length (inline_notes_to_add ex_two_inline_scan)
   \<and> frontmatterID ex_two_inline_scan = Some 12
   \<and> 12 \<in> set (EXISTING_IDS (ex_data [12] True))
   \<and> \<not> useFrontmatterID ex_two_inline_scan
   \<and> inline_notes_to_add ex_two_inline_scan = [ex_new_note, ex_new_note]
   \<and> notes_to_edit ex_two_inline_scan = []
   \<and> notesToWriteInline ex_two_inline_scan = []
   \<and> file_text (writeIDs (ex_data [12] True)
         (ex_two_inline_scan\<lparr>note_ids := [Some 500, Some 501]\<rparr>))
       = ''---'' @ [LF, LF] @ ''---'' @ [LF]
         @ ''STARTI [Basic] Q1 Back: A1 ID: 500 ENDI'' @ [LF]
         @ ''STARTI [Basic] Q2 Back: A2 ID: 501 ENDI'' @ [LF]"
  by code_simp

text \<open>
  Claim C6, amended: if front-matter mode is disabled or the document has more than one
  note in total, \<open>useFrontmatterID\<close> is false for the whole document. If then
  \<open>this.frontmatterID\<close> is set (truthy) and in \<open>EXISTING_IDS\<close>, and \<open>notes_to_add\<close> is
  not empty, its first note, the first new block note, is moved to \<open>notes_to_edit\<close>
  under the front-matter identifier, its position is taken off \<open>id_indexes\<close>, and the
  write pass inserts the identifier's marker at that position; when \<open>notes_to_add\<close> is
  empty, nothing is reassigned. In the write pass, when \<open>this.frontmatterID\<close> is set and
  the front matter of the text has a line that starts with \<^verbatim>\<open>nid:\<close>, the first edit
  rewrites the front-matter block: without that line when it is on the last line of the
  front matter, with only its value cleared otherwise. For a front matter \<open>pre\<close>, line
  feed, \<^verbatim>\<open>nid:\<close> and a value, where \<open>pre\<close> does not mention \<^verbatim>\<open>nid:\<close> and does not end in
  white space, what is left is \<open>pre\<close>, with no \<open>nid\<close> line.
\<close>

theorem frontmatter_fallback_first_block_note:
  assumes "\<not> saveIDToFrontmatter d \<or> 1 < totalNotes st"
  shows "\<not> useFrontmatterID (postProcessFrontmatterID d st)
   \<and> (frontmatterID st = Some fid \<and> truthy (frontmatterID st) \<and> fid \<in> set (EXISTING_IDS d)
        \<and> notes_to_add st = note # rest \<and> id_indexes st = position # positions \<longrightarrow>
        postProcessFrontmatterID d st =
          st\<lparr>useFrontmatterID := False, notes_to_add := rest, id_indexes := positions,
             notes_to_edit := notes_to_edit st @ [(note, fid)],
             notesToWriteInline := notesToWriteInline st @ [(position, fid)]\<rparr>
        \<and> \<lparr>e_start = position, e_end = position, e_text = id_to_str fid False (comment d)\<rparr>
            \<in> set (write_edits d ((postProcessFrontmatterID d st)\<lparr>note_ids := ids\<rparr>)))
   \<and> (notes_to_add st = [] \<longrightarrow> postProcessFrontmatterID d st = st\<lparr>useFrontmatterID := False\<rparr>)
   \<and> (truthy (frontmatterID st) \<and> frontmatter_match (file_text st) = Some (fm, len)
        \<and> has_nid_line fm \<longrightarrow>
        (\<exists>more. write_edits d ((postProcessFrontmatterID d st)\<lparr>note_ids := ids\<rparr>) =
           \<lparr>e_start = 0, e_end = len,
            e_text = ''---'' @ [LF] @ (if nid_on_last_line (trim fm) then strip_nid_tail fm
                                       else clear_nid_value fm) @ [LF] @ ''---''\<rparr> # more))
   \<and> (find_sub ''nid:'' pre = None \<and> (pre = [] \<or> \<not> is_space (last pre)) \<and> LF \<notin> set v \<longrightarrow>
        has_nid_line (pre @ LF # ''nid:'' @ v)
        \<and> nid_on_last_line (trim (pre @ LF # ''nid:'' @ v))
        \<and> strip_nid_tail (pre @ LF # ''nid:'' @ v) = pre
        \<and> \<not> has_nid_line pre)"
proof -
  let ?st' = "postProcessFrontmatterID d st"
  have c: "\<not> (saveIDToFrontmatter d \<and> totalNotes st = 1)" using assms by auto
  have fb: "?st' = fallback_inline d (st\<lparr>useFrontmatterID := False\<rparr>)"
    using c by (rule postProcess_fallback)
  have 1: "\<not> useFrontmatterID ?st'" using c by (simp add: postProcess_flag)
  have 2: "?st' = st\<lparr>useFrontmatterID := False, notes_to_add := rest, id_indexes := positions,
             notes_to_edit := notes_to_edit st @ [(note, fid)],
             notesToWriteInline := notesToWriteInline st @ [(position, fid)]\<rparr>
        \<and> \<lparr>e_start = position, e_end = position, e_text = id_to_str fid False (comment d)\<rparr>
            \<in> set (write_edits d (?st'\<lparr>note_ids := ids\<rparr>))"
    if h: "frontmatterID st = Some fid" "truthy (frontmatterID st)" "fid \<in> set (EXISTING_IDS d)"
       "notes_to_add st = note # rest" "id_indexes st = position # positions"
  proof -
    have e: "?st' = st\<lparr>useFrontmatterID := False, notes_to_add := rest, id_indexes := positions,
             notes_to_edit := notes_to_edit st @ [(note, fid)],
             notesToWriteInline := notesToWriteInline st @ [(position, fid)]\<rparr>"
      using h by (simp add: fb fallback_inline_def shift_def truthy_def)
    have "(position, fid) \<in> set (notesToWriteInline ?st')" by (simp add: e)
    then have "\<lparr>e_start = position, e_end = position, e_text = id_to_str fid False (comment d)\<rparr>
            \<in> set (write_edits d (?st'\<lparr>note_ids := ids\<rparr>))"
      using 1 by (force simp: write_edits_def inline_write_edits_def)
    then show ?thesis using e by simp
  qed
  have 3: "?st' = st\<lparr>useFrontmatterID := False\<rparr>" if "notes_to_add st = []"
    using that by (auto simp: fb fallback_inline_def split: option.splits)
  have 4: "\<exists>more. write_edits d (?st'\<lparr>note_ids := ids\<rparr>) =
           \<lparr>e_start = 0, e_end = len,
            e_text = ''---'' @ [LF] @ (if nid_on_last_line (trim fm) then strip_nid_tail fm
                                       else clear_nid_value fm) @ [LF] @ ''---''\<rparr> # more"
    if h: "truthy (frontmatterID st)" "frontmatter_match (file_text st) = Some (fm, len)"
       "has_nid_line fm"
  proof -
    have "frontmatter_removal_edits (?st'\<lparr>note_ids := ids\<rparr>) =
           [\<lparr>e_start = 0, e_end = len,
             e_text = ''---'' @ [LF] @ (if nid_on_last_line (trim fm) then strip_nid_tail fm
                                        else clear_nid_value fm) @ [LF] @ ''---''\<rparr>]"
      using h removal_edits_head[of ?st' fm len]
      by (simp add: removal_edits_note_ids postProcess_frame)
    then show ?thesis using 1 by (simp add: write_edits_def inline_write_edits_def)
  qed
  show ?thesis
    using 1 2 3 4 nid_last_line_facts[of pre v] by blast
qed

text \<open>
  The note file with the front matter \<^verbatim>\<open>title: x\<close>, \<^verbatim>\<open>nid: 12\<close> and two new block
  notes, \<open>ex_two_blocks\<close> being the state its scan hands to \<open>postProcessFrontmatterID\<close>:
  the first note is edited under 12 and gets the marker of 12, the position left in
  \<open>id_indexes\<close> gets the first of the new identifiers, and the front matter keeps its
  title only.
\<close>

theorem frontmatter_fallback_first_block_note_witness:
  "1 < totalNotes ex_two_blocks
   \<and> ex_two_block_scan = postProcessFrontmatterID (ex_data [12] True) ex_two_blocks
   \<and> \<not> useFrontmatterID (postProcessFrontmatterID (ex_data [12] True) ex_two_blocks)
   \<and> postProcessFrontmatterID (ex_data [12] True) ex_two_blocks =
       ex_two_blocks\<lparr>useFrontmatterID := False, notes_to_add := [ex_new_note], id_indexes := [75],
         notes_to_edit := [(ex_new_note, 12)], notesToWriteInline := [(47, 12)]\<rparr>
   \<and> write_edits (ex_data [12] True)
        ((postProcessFrontmatterID (ex_data [12] True) ex_two_blocks)\<lparr>note_ids := [Some 500, Some 501]\<rparr>)
       = [\<lparr>e_start = 0, e_end = 24, e_text = ''---'' @ [LF] @ ''title: x'' @ [LF] @ ''---''\<rparr>,
          \<lparr>e_start = 47, e_end = 47, e_text = ''ID: 12'' @ [LF]\<rparr>,
          \<lparr>e_start = 75, e_end = 75, e_text = ''ID: 500'' @ [LF]\<rparr>]
   \<and> strip_nid_tail (''title: x'' @ LF # ''nid:'' @ '' 12'') = ''title: x''"
proof -
  let ?d = "ex_data [12] True"
  have h0: "\<not> saveIDToFrontmatter ?d \<or> 1 < totalNotes ex_two_blocks" by code_simp
  have h1: "frontmatterID ex_two_blocks = Some 12 \<and> truthy (frontmatterID ex_two_blocks)
        \<and> 12 \<in> set (EXISTING_IDS ?d)
        \<and> notes_to_add ex_two_blocks = ex_new_note # [ex_new_note] \<and> id_indexes ex_two_blocks = 47 # [75]"
    by code_simp
  have h2: "truthy (frontmatterID ex_two_blocks)
        \<and> frontmatter_match (file_text ex_two_blocks) = Some (''title: x'' @ LF # ''nid:'' @ '' 12'', 24)
        \<and> has_nid_line (''title: x'' @ LF # ''nid:'' @ '' 12'')"
    by code_simp
  have h3: "find_sub ''nid:'' ''title: x'' = None
        \<and> (''title: x'' = [] \<or> \<not> is_space (last ''title: x'')) \<and> LF \<notin> set '' 12''"
    by code_simp
  have t: "1 < totalNotes ex_two_blocks" by code_simp
  have s: "ex_two_block_scan = postProcessFrontmatterID (ex_data [12] True) ex_two_blocks"
    by code_simp
  have n: "notes_to_edit ex_two_blocks = []" "notesToWriteInline ex_two_blocks = []"
    by code_simp+
  have w: "write_edits ?d ((postProcessFrontmatterID ?d ex_two_blocks)\<lparr>note_ids := [Some 500, Some 501]\<rparr>)
       = [\<lparr>e_start = 0, e_end = 24, e_text = ''---'' @ [LF] @ ''title: x'' @ [LF] @ ''---''\<rparr>,
          \<lparr>e_start = 47, e_end = 47, e_text = ''ID: 12'' @ [LF]\<rparr>,
          \<lparr>e_start = 75, e_end = 75, e_text = ''ID: 500'' @ [LF]\<rparr>]"
    by code_simp
  show ?thesis
    using frontmatter_fallback_first_block_note[OF h0, of 12 ex_new_note "[ex_new_note]" 47 "[75]"
        "[Some 500, Some 501]" "''title: x'' @ LF # ''nid:'' @ '' 12''" 24 "''title: x''" "'' 12''"]
      h1 h2 h3 t s n w
    by simp
qed

subsection \<open>Scanning a document that needs nothing (claim C8)\<close>




end
